theory Spec2Isabelle
  imports Main "HOL-Library.Sublist"
begin

section \<open>archive-docker: the build-matrix driver\<close>

text \<open>
  A shallow embedding of \<^verbatim>\<open>archive-docker.py\<close>. The script drives three external
  tools (\<^verbatim>\<open>make\<close>, \<^verbatim>\<open>buildah\<close>, \<^verbatim>\<open>podman\<close>) over a matrix of architectures,
  branches and dates. Everything the script does to the outside is recorded in a trace
  of events; an exception of the script is an \<open>error\<close> value that stops the run.
\<close>

subsection \<open>Errors, processes and events\<close>

text \<open>
  The exceptions the script can end with: \<^verbatim>\<open>subprocess.CalledProcessError\<close> (exit status
  and command line) from \<^verbatim>\<open>subprocess.run(..., check=True)\<close>, \<^verbatim>\<open>KeyError\<close> from
  \<^verbatim>\<open>ARCH_MAP[arch]\<close>, \<^verbatim>\<open>ValueError\<close> from \<^verbatim>\<open>date.fromisoformat\<close>, \<^verbatim>\<open>TypeError\<close> from
  iterating \<^verbatim>\<open>None\<close>, and \<^verbatim>\<open>SystemExit\<close> from \<^verbatim>\<open>argparse\<close>.
\<close>

datatype error =
    CalledProcessError int "string list"
  | KeyError string
  | ValueError string
  | TypeError
  | SystemExit int

text \<open>
  One call of \<^verbatim>\<open>subprocess.run\<close>: the command line, the keyword arguments \<^verbatim>\<open>cwd\<close> and
  \<^verbatim>\<open>input\<close> (absent when not passed), \<^verbatim>\<open>check\<close> (\<^verbatim>\<open>False\<close> when not passed, as in the
  library) and whether both output streams go to \<^verbatim>\<open>subprocess.DEVNULL\<close>.
\<close>

record proc =
  argv :: "string list"
  cwd :: "string option"
  input :: "string option"
  check :: bool
  devnull :: bool

text \<open>
  The calls of the stage functions made by the driver, with the arguments that identify
  the cell or the manifest. They are recorded in the trace so that the order of the
  stages can be read off it.
\<close>

datatype entered =
    In_remove_manifest string
  | In_build_tarball string string string
  | In_buildah_build string string string string string
  | In_test string string string string
  | In_podman_push string
  | In_clean

datatype event =
    Entered entered
  | Ran proc int
  | Write_text string string
  | Mkdir string

type_synonym trace = "event list"

text \<open>
  The surroundings of the process: the exit status the operating system reports for a
  command, which may depend on everything that happened before; the working directory
  and the home directory of the process, as the library gives them (normalised, without
  a separator at the end unless they are the root); and the order in which the
  interpreter enumerates a set of strings (Python leaves it unspecified).
  A file-system error while writing a file or creating a directory, and a tool that
  cannot be started at all, are outside the model.
\<close>

record env =
  exit_code :: "trace \<Rightarrow> proc \<Rightarrow> int"
  CWD :: string
  HOME :: string
  set_order :: "string set \<Rightarrow> string list"

text \<open>An action of the script: it extends the trace and returns normally or raises.\<close>

type_synonym action = "trace \<Rightarrow> error option \<times> trace"

definition skip :: action where
  "skip tr = (None, tr)"

definition raise :: "error \<Rightarrow> action" where
  "raise e tr = (Some e, tr)"

definition emit :: "event \<Rightarrow> action" where
  "emit ev tr = (None, tr @ [ev])"

text \<open>Statement sequencing: the second statement runs only if the first returned.\<close>

definition andthen :: "action \<Rightarrow> action \<Rightarrow> action" where
  "andthen f g tr = (case f tr of (Some e, tr') \<Rightarrow> (Some e, tr') | (None, tr') \<Rightarrow> g tr')"

definition if_then :: "bool \<Rightarrow> action \<Rightarrow> action" where
  "if_then b f = (if b then f else skip)"

text \<open>A \<^verbatim>\<open>for\<close> loop over a sequence.\<close>

primrec for_each :: "'a list \<Rightarrow> ('a \<Rightarrow> action) \<Rightarrow> action" where
  "for_each [] body = skip"
| "for_each (x # xs) body = andthen (body x) (for_each xs body)"

text \<open>
  A value computed by an expression that may raise (\<open>Inl\<close>), handed to the statement
  that uses it.
\<close>

definition eval_then :: "error + 'a \<Rightarrow> ('a \<Rightarrow> action) \<Rightarrow> action" where
  "eval_then v f = (case v of Inl e \<Rightarrow> raise e | Inr x \<Rightarrow> f x)"

text \<open>
  \<^verbatim>\<open>subprocess.run\<close>: the command runs and its exit status is recorded; with
  \<^verbatim>\<open>check=True\<close> a nonzero status raises \<^verbatim>\<open>CalledProcessError\<close>, otherwise the status
  is dropped.
\<close>

definition subprocess_run :: "env \<Rightarrow> proc \<Rightarrow> action" where
  "subprocess_run E p tr =
     (let rc = exit_code E tr p; tr' = tr @ [Ran p rc]
      in if check p \<and> rc \<noteq> 0 then (Some (CalledProcessError rc (argv p)), tr')
         else (None, tr'))"

subsection \<open>Constants\<close>

definition LF :: char where
  "LF = CHR 0x0A"

text \<open>
  \<^verbatim>\<open>Path / name\<close> of \<^verbatim>\<open>pathlib\<close> for a POSIX path: an absolute right operand replaces
  the left one, otherwise the two are joined by one separator.
\<close>

definition path_join :: "string \<Rightarrow> string \<Rightarrow> string" where
  "path_join p q =
     (if q \<noteq> [] \<and> hd q = CHR ''/'' then q
      else if p \<noteq> [] \<and> last p = CHR ''/'' then p @ q
      else p @ ''/'' @ q)"

definition APT_CONF :: "env \<Rightarrow> string" where
  "APT_CONF E = path_join (CWD E) ''apt.conf''"

definition SOURCE_LIST :: "env \<Rightarrow> string" where
  "SOURCE_LIST E = path_join (CWD E) ''source.list''"

definition INTERNAL_CONTAINER :: string where
  "INTERNAL_CONTAINER = ''archive-docker''"

definition ARCH_MAP :: "string \<rightharpoonup> string" where
  "ARCH_MAP = map_of
     [(''amd64'', ''x86_64''),
      (''386'', ''i586''),
      (''arm64'', ''aarch64''),
      (''arm'', ''armh''),
      (''ppc64le'', ''ppc64le'')]"

text \<open>\<^verbatim>\<open>ARCH_MAP[arch]\<close>: a missing key raises \<^verbatim>\<open>KeyError\<close>.\<close>

definition arch_lookup :: "string \<Rightarrow> error + string" where
  "arch_lookup arch = (case ARCH_MAP arch of None \<Rightarrow> Inl (KeyError arch) | Some a \<Rightarrow> Inr a)"

subsection \<open>Dates\<close>

text \<open>
  \<^verbatim>\<open>datetime.date.fromisoformat\<close> and \<^verbatim>\<open>date.strftime("%Y/%m/%d")\<close> belong to the Python
  library. The model follows the C implementation of Python 3.11 on a system with the
  GNU C library: a string of 7, 8 or 10 bytes (in UTF-8) is read as a calendar date
  (\<^verbatim>\<open>YYYY-MM-DD\<close>, \<^verbatim>\<open>YYYYMMDD\<close>) or as an ISO week date (\<^verbatim>\<open>YYYY-Www\<close>, \<^verbatim>\<open>YYYYWww\<close>,
  \<^verbatim>\<open>YYYY-Www-D\<close>, \<^verbatim>\<open>YYYYWwwD\<close>), bytes after the last field are not looked at, and the
  result must be a date of the years 1 to 9999. Earlier releases read \<^verbatim>\<open>YYYY-MM-DD\<close> only.
\<close>

record date =
  year :: nat
  month :: nat
  day :: nat

definition is_digit :: "char \<Rightarrow> bool" where
  "is_digit c = (48 \<le> (of_char c :: nat) \<and> (of_char c :: nat) \<le> 57)"

definition digit_val :: "char \<Rightarrow> nat" where
  "digit_val c = of_char c - 48"

definition digit_char :: "nat \<Rightarrow> char" where
  "digit_char n = char_of (48 + n)"

text \<open>Exactly \<open>n\<close> decimal digits at the start of the string: their value and the rest.\<close>

definition parse_digits :: "nat \<Rightarrow> string \<Rightarrow> (nat \<times> string) option" where
  "parse_digits n s =
     (if n \<le> length s \<and> list_all is_digit (take n s)
      then Some (foldl (\<lambda>v c. 10 * v + digit_val c) 0 (take n s), drop n s)
      else None)"

definition is_leap :: "nat \<Rightarrow> bool" where
  "is_leap y = (y mod 4 = 0 \<and> (y mod 100 \<noteq> 0 \<or> y mod 400 = 0))"

definition days_in_month :: "nat \<Rightarrow> nat \<Rightarrow> nat" where
  "days_in_month y m =
     (if m = 2 then (if is_leap y then 29 else 28)
      else if m = 4 \<or> m = 6 \<or> m = 9 \<or> m = 11 then 30 else 31)"

text \<open>The days of a common year before the first of a month (1 to 12).\<close>

definition days_before_month :: "nat \<Rightarrow> nat" where
  "days_before_month m =
     (if m \<le> 12 then [0, 0, 31, 59, 90, 120, 151, 181, 212, 243, 273, 304, 334] ! m else 0)"

text \<open>The days before the first of January of a year from 1 on.\<close>

definition days_before_year :: "nat \<Rightarrow> nat" where
  "days_before_year y = (let p = y - 1 in p * 365 + p div 4 - p div 100 + p div 400)"

text \<open>
  The date of an ordinal, where the first of January of the year 1 has ordinal 1; the
  arithmetic is that of the library.
\<close>

definition ord_to_ymd :: "nat \<Rightarrow> nat \<times> nat \<times> nat" where
  "ord_to_ymd ordinal =
     (let n = ordinal - 1;
          n400 = n div 146097; n = n mod 146097;
          n100 = n div 36524; n = n mod 36524;
          n4 = n div 1461; n = n mod 1461;
          n1 = n div 365; n = n mod 365;
          y = n400 * 400 + 1 + n100 * 100 + n4 * 4 + n1
      in if n1 = 4 \<or> n100 = 4 then (y - 1, 12, 31)
         else
           (let leapyear = (n1 = 3 \<and> (n4 \<noteq> 24 \<or> n100 = 3));
                m = (n + 50) div 32;
                preceding = days_before_month m + (if 2 < m \<and> leapyear then 1 else 0)
            in if n < preceding
               then (y, m - 1, n - (preceding - days_in_month y (m - 1)) + 1)
               else (y, m, n - preceding + 1)))"

text \<open>
  An ISO week date. Week 53 exists in years that begin on a Thursday, and in leap years
  that begin on a Wednesday; days are 1 (Monday) to 7. For the year 0 the library ends
  with \<^verbatim>\<open>ValueError\<close> whatever the week and the day.
\<close>

definition iso_to_ymd :: "nat \<Rightarrow> nat \<Rightarrow> nat \<Rightarrow> (nat \<times> nat \<times> nat) option" where
  "iso_to_ymd iso_year iso_week iso_day =
     (let first_day = days_before_year iso_year + 1;
          first_weekday = (first_day + 6) mod 7
      in if iso_year = 0 then None
         else if (iso_week = 0 \<or> 53 \<le> iso_week)
                 \<and> \<not> (iso_week = 53
                        \<and> (first_weekday = 3 \<or> (first_weekday = 2 \<and> is_leap iso_year)))
         then None
         else if iso_day = 0 \<or> 8 \<le> iso_day then None
         else
           (let week1_monday = (if 3 < first_weekday then first_day + 7 - first_weekday
                                else first_day - first_weekday)
            in Some (ord_to_ymd (week1_monday + (iso_week - 1) * 7 + iso_day - 1))))"

definition parse_isoformat_date :: "string \<Rightarrow> (nat \<times> nat \<times> nat) option" where
  "parse_isoformat_date s =
     (case parse_digits 4 s of
        None \<Rightarrow> None
      | Some (y, p) \<Rightarrow>
          (let uses_separator = (take 1 p = ''-'');
               p = (if uses_separator then drop 1 p else p)
           in if take 1 p = ''W'' then
                (case parse_digits 2 (drop 1 p) of
                   None \<Rightarrow> None
                 | Some (w, p) \<Rightarrow>
                     if p \<noteq> [] then
                       (if uses_separator \<and> take 1 p \<noteq> ''-'' then None
                        else
                          (case parse_digits 1 (if uses_separator then drop 1 p else p) of
                             None \<Rightarrow> None
                           | Some (d, p) \<Rightarrow> iso_to_ymd y w d))
                     else iso_to_ymd y w 1)
              else
                (case parse_digits 2 p of
                   None \<Rightarrow> None
                 | Some (m, p) \<Rightarrow>
                     if uses_separator \<and> take 1 p \<noteq> ''-'' then None
                     else
                       (case parse_digits 2 (if uses_separator then drop 1 p else p) of
                          None \<Rightarrow> None
                        | Some (d, p) \<Rightarrow> Some (y, m, d)))))"

definition fromisoformat :: "string \<Rightarrow> error + date" where
  "fromisoformat s =
     (if length s = 7 \<or> length s = 8 \<or> length s = 10 then
        (case parse_isoformat_date s of
           None \<Rightarrow> Inl (ValueError s)
         | Some (y, m, d) \<Rightarrow>
             if 1 \<le> y \<and> y \<le> 9999 \<and> 1 \<le> m \<and> m \<le> 12 \<and> 1 \<le> d \<and> d \<le> days_in_month y m
             then Inr \<lparr>year = y, month = m, day = d\<rparr>
             else Inl (ValueError s))
      else Inl (ValueError s))"

text \<open>A number in decimal, without leading zeros.\<close>

fun show_nat :: "nat \<Rightarrow> string" where
  "show_nat n = (if n < 10 then [digit_char n] else show_nat (n div 10) @ [digit_char (n mod 10)])"

declare show_nat.simps [simp del]

text \<open>The last \<open>w\<close> decimal digits of \<open>n\<close>, with leading zeros.\<close>

primrec zero_pad :: "nat \<Rightarrow> nat \<Rightarrow> string" where
  "zero_pad 0 n = []"
| "zero_pad (Suc w) n = zero_pad w (n div 10) @ [digit_char (n mod 10)]"

text \<open>
  \<^verbatim>\<open>strftime("%Y/%m/%d")\<close>: the GNU C library writes \<^verbatim>\<open>%Y\<close> without leading zeros, so a
  year before 1000 has fewer than four digits; \<^verbatim>\<open>%m\<close> and \<^verbatim>\<open>%d\<close> have two digits.
\<close>

definition strftime_Ymd :: "date \<Rightarrow> string" where
  "strftime_Ymd d =
     show_nat (year d) @ ''/'' @ zero_pad 2 (month d) @ ''/'' @ zero_pad 2 (day d)"

definition apt_date :: "string \<Rightarrow> error + string" where
  "apt_date s = (case fromisoformat s of Inl e \<Rightarrow> Inl e | Inr d \<Rightarrow> Inr (strftime_Ymd d))"

subsection \<open>The source list\<close>

text \<open>
  \<^verbatim>\<open>str.lstrip()\<close> removes leading white space; on the texts of this script, which begin
  with a line feed followed by a letter, only that line feed.
\<close>

definition is_space :: "char \<Rightarrow> bool" where
  "is_space c = (let n = (of_char c :: nat) in (9 \<le> n \<and> n \<le> 13) \<or> (28 \<le> n \<and> n \<le> 32))"

definition lstrip :: "string \<Rightarrow> string" where
  "lstrip s = dropWhile is_space s"

definition repo_root :: string where
  "repo_root = ''http://ftp.altlinux.org/pub/distributions/archive''"

text \<open>
  The date is converted first and the architecture looked up while the text is
  formatted, so a malformed date is reported before an unknown architecture.
\<close>

definition generate_source_list :: "string \<Rightarrow> string \<Rightarrow> string \<Rightarrow> error + string" where
  "generate_source_list arch branch date_str =
     (case apt_date date_str of
        Inl e \<Rightarrow> Inl e
      | Inr dt \<Rightarrow>
          (case arch_lookup arch of
             Inl e \<Rightarrow> Inl e
           | Inr a \<Rightarrow>
               Inr (lstrip
                 ([LF] @ ''rpm '' @ repo_root @ ''/'' @ branch @ ''/date/'' @ dt @ '' '' @ a
                    @ '' classic'' @ [LF]
                  @ ''rpm '' @ repo_root @ ''/'' @ branch @ ''/date/'' @ dt @ '' noarch classic''
                    @ [LF]))))"

subsection \<open>Tarball stage\<close>

definition apt_conf_text :: "env \<Rightarrow> string" where
  "apt_conf_text E = lstrip
     ([LF] @ ''Dir::Etc::main '' @ [CHR 0x22] @ ''/dev/null'' @ [CHR 0x22] @ '';'' @ [LF]
      @ ''Dir::Etc::parts '' @ [CHR 0x22] @ ''/var/empty'' @ [CHR 0x22] @ '';'' @ [LF]
      @ ''Dir::Etc::SourceList '' @ [CHR 0x22] @ SOURCE_LIST E @ [CHR 0x22] @ '';'' @ [LF]
      @ ''Dir::Etc::SourceParts '' @ [CHR 0x22] @ ''/var/empty'' @ [CHR 0x22] @ '';'' @ [LF]
      @ ''Dir::Etc::preferences '' @ [CHR 0x22] @ ''/dev/null'' @ [CHR 0x22] @ '';'' @ [LF]
      @ ''Dir::Etc::preferencesparts '' @ [CHR 0x22] @ ''/var/empty'' @ [CHR 0x22] @ '';''
      @ [LF])"

text \<open>
  The configuration file is written before the source list is generated, so it is on
  disk already when the generation raises.
\<close>

definition create_apt_files :: "env \<Rightarrow> string \<Rightarrow> string \<Rightarrow> string \<Rightarrow> action" where
  "create_apt_files E arch branch date =
     andthen (emit (Write_text (APT_CONF E) (apt_conf_text E)))
       (eval_then (generate_source_list arch branch date)
          (\<lambda>text. emit (Write_text (SOURCE_LIST E) text)))"

text \<open>The function \<^verbatim>\<open>make\<close> of the script.\<close>

definition make_tool :: "env \<Rightarrow> string \<Rightarrow> string \<Rightarrow> string \<Rightarrow> string \<Rightarrow> action" where
  "make_tool E arch branch out_dir mkimage_profiles_dir =
     eval_then (arch_lookup arch) (\<lambda>a.
       subprocess_run E
         \<lparr>argv = [''make'', ''APTCONF='' @ APT_CONF E, ''ARCH='' @ a, ''BRANCH='' @ branch,
                  ''IMAGE_OUTDIR='' @ out_dir, ''IMAGE_OUTFILE=alt.tar.xz'',
                  ''ve/docker.tar.xz''],
          cwd = Some mkimage_profiles_dir, input = None, check = True, devnull = False\<rparr>)"

definition build_tarball :: "env \<Rightarrow> string \<Rightarrow> string \<Rightarrow> string \<Rightarrow> string \<Rightarrow> action" where
  "build_tarball E arch branch date mkimage_profiles_dir =
     andthen (emit (Entered (In_build_tarball arch branch date)))
       (andthen (create_apt_files E arch branch date)
          (let out_dir = path_join (CWD E) arch
           in andthen (emit (Mkdir out_dir))
                (make_tool E arch branch out_dir mkimage_profiles_dir)))"

subsection \<open>Best-effort removals\<close>

definition remove_manifest_proc :: "string \<Rightarrow> proc" where
  "remove_manifest_proc name =
     \<lparr>argv = [''buildah'', ''manifest'', ''rm'', name],
      cwd = None, input = None, check = False, devnull = True\<rparr>"

definition remove_manifest :: "env \<Rightarrow> string \<Rightarrow> action" where
  "remove_manifest E name =
     andthen (emit (Entered (In_remove_manifest name)))
       (subprocess_run E (remove_manifest_proc name))"

definition remove_image :: "env \<Rightarrow> string \<Rightarrow> action" where
  "remove_image E name =
     subprocess_run E
       \<lparr>argv = [''buildah'', ''image'', ''rm'', name],
        cwd = None, input = None, check = False, devnull = True\<rparr>"

definition remove_container :: "env \<Rightarrow> string \<Rightarrow> action" where
  "remove_container E name =
     subprocess_run E
       \<lparr>argv = [''buildah'', ''rm'', name],
        cwd = None, input = None, check = False, devnull = True\<rparr>"

subsection \<open>Image stage\<close>

text \<open>
  The calls of \<^verbatim>\<open>subprocess.run\<close> in this stage pass no \<^verbatim>\<open>check\<close>, so their exit status
  is not looked at.
\<close>

definition buildah :: "env \<Rightarrow> string list \<Rightarrow> string option \<Rightarrow> action" where
  "buildah E args dir =
     subprocess_run E
       \<lparr>argv = ''buildah'' # args, cwd = dir, input = None, check = False, devnull = False\<rparr>"

definition run_command_in_container ::
  "env \<Rightarrow> string \<Rightarrow> string list \<Rightarrow> string option \<Rightarrow> action" where
  "run_command_in_container E container cmd inp =
     subprocess_run E
       \<lparr>argv = [''buildah'', ''run'', container] @ cmd,
        cwd = None, input = inp, check = False, devnull = False\<rparr>"

text \<open>
  \<^verbatim>\<open>if packages:\<close> holds for a list with at least one element, not for \<^verbatim>\<open>None\<close>; the
  packages are then installed and the package caches removed.
\<close>

definition install_packages :: "env \<Rightarrow> string \<Rightarrow> string list option \<Rightarrow> action" where
  "install_packages E container packages =
     (case packages of
        None \<Rightarrow> skip
      | Some ps \<Rightarrow>
          if ps = [] then skip
          else
            andthen (run_command_in_container E container [''apt-get'', ''update''] None)
           (andthen (run_command_in_container E container
                       ([''apt-get'', ''install'', ''-y''] @ ps) None)
                    (run_command_in_container E container
                       [''sh'', ''-c'',
                        ''rm -f /var/cache/apt/archives/*.rpm /var/cache/apt/*.bin /var/lib/apt/lists/*.*'']
                       None)))"

definition buildah_build ::
  "env \<Rightarrow> string \<Rightarrow> string \<Rightarrow> string \<Rightarrow> string \<Rightarrow> string \<Rightarrow> string list option \<Rightarrow> action" where
  "buildah_build E arch branch date manifest img packages =
     (let container = INTERNAL_CONTAINER @ ''-'' @ arch in
      andthen (emit (Entered (In_buildah_build arch branch date manifest img)))
     (andthen (remove_image E img)
     (andthen (remove_container E container)
     (andthen (buildah E [''from'', ''--arch'', arch, ''--name'', container, ''scratch''] None)
     (andthen (buildah E [''add'', container, ''alt.tar.xz'', ''/'']
                 (Some (path_join (CWD E) arch)))
     (andthen (run_command_in_container E container
                 [''sh'', ''-c'', ''true > /etc/security/limits.d/50-defaults.conf''] None)
     (andthen (eval_then (generate_source_list arch branch date) (\<lambda>text.
                 run_command_in_container E container
                   [''sh'', ''-c'', ''cat > /etc/apt/sources.list.d/alt.list''] (Some text)))
     (andthen (install_packages E container packages)
     (andthen (buildah E [''config'', ''--cmd'', ''['' @ [CHR 0x22] @ ''/bin/bash'' @ [CHR 0x22] @ '']'',
                          container] None)
              (buildah E [''commit'', ''--rm'', ''--manifest'', manifest, container, img]
                 None))))))))))"

subsection \<open>Test stage\<close>

text \<open>
  The command list is built before anything runs: the architecture is looked up first,
  then the date is converted.
\<close>

definition test_commands :: "string \<Rightarrow> string \<Rightarrow> string \<Rightarrow> error + string list list" where
  "test_commands arch branch date =
     (case arch_lookup arch of
        Inl e \<Rightarrow> Inl e
      | Inr a \<Rightarrow>
          (case apt_date date of
             Inl e \<Rightarrow> Inl e
           | Inr dt \<Rightarrow>
               Inr (map (\<lambda>v. [''grep'', ''-q'', v, ''/etc/apt/sources.list.d/alt.list''])
                      [branch, a, dt]
                    @ [[''sh'', ''-c'', ''apt-get update && apt-get install -y ncdu'']])))"

definition podman_run_proc :: "string \<Rightarrow> string list \<Rightarrow> proc" where
  "podman_run_proc img command =
     \<lparr>argv = [''podman'', ''run'', ''--rm'', img] @ command,
      cwd = None, input = None, check = True, devnull = False\<rparr>"

definition test :: "env \<Rightarrow> string \<Rightarrow> string \<Rightarrow> string \<Rightarrow> string \<Rightarrow> action" where
  "test E arch branch date img =
     andthen (emit (Entered (In_test arch branch date img)))
       (eval_then (test_commands arch branch date) (\<lambda>commands.
          for_each commands (\<lambda>command. subprocess_run E (podman_run_proc img command))))"

subsection \<open>Push and clean\<close>

definition podman_push_proc :: "string \<Rightarrow> proc" where
  "podman_push_proc img =
     \<lparr>argv = [''podman'', ''manifest'', ''push'', img, ''docker://'' @ img],
      cwd = None, input = None, check = False, devnull = False\<rparr>"

definition podman_push :: "env \<Rightarrow> string \<Rightarrow> action" where
  "podman_push E img =
     andthen (emit (Entered (In_podman_push img))) (subprocess_run E (podman_push_proc img))"

definition clean_proc :: proc where
  "clean_proc =
     \<lparr>argv = [''podman'', ''system'', ''prune'', ''-af''],
      cwd = None, input = None, check = False, devnull = False\<rparr>"

definition clean :: "env \<Rightarrow> action" where
  "clean E = andthen (emit (Entered In_clean)) (subprocess_run E clean_proc)"

subsection \<open>The matrix driver\<close>

text \<open>The body of the loop over architectures: the stages of one cell.\<close>

definition cell_body ::
  "env \<Rightarrow> string \<Rightarrow> string \<Rightarrow> string \<Rightarrow> string set \<Rightarrow> string list option
     \<Rightarrow> string \<Rightarrow> string \<Rightarrow> string \<Rightarrow> string \<Rightarrow> action" where
  "cell_body E mkimage_profiles_dir repo name stages packages branch date manifest arch =
     (let img = repo @ ''/'' @ name @ '':'' @ branch @ ''-'' @ date @ ''-'' @ arch in
      andthen (if_then (''build_tarball'' \<in> stages)
                 (build_tarball E arch branch date mkimage_profiles_dir))
     (andthen (if_then (''build_image'' \<in> stages)
                 (buildah_build E arch branch date manifest img packages))
              (if_then (''test'' \<in> stages) (test E arch branch date img))))"

text \<open>The body of the loop over dates: one (branch, date) pair.\<close>

definition date_body ::
  "env \<Rightarrow> string list \<Rightarrow> string \<Rightarrow> string \<Rightarrow> string \<Rightarrow> string set \<Rightarrow> string list option
     \<Rightarrow> string \<Rightarrow> string \<Rightarrow> action" where
  "date_body E arches mkimage_profiles_dir repo name stages packages branch date =
     (let manifest = repo @ ''/'' @ name @ '':'' @ branch @ ''-'' @ date in
      andthen (if_then (''build_image'' \<in> stages) (remove_manifest E manifest))
     (andthen (for_each arches
                 (cell_body E mkimage_profiles_dir repo name stages packages branch date
                    manifest))
              (if_then (''push'' \<in> stages) (podman_push E manifest))))"

text \<open>
  \<^verbatim>\<open>for date in dates\<close>: \<^verbatim>\<open>dates\<close> is \<^verbatim>\<open>None\<close> when the option was not given, and
  iterating \<^verbatim>\<open>None\<close> raises \<^verbatim>\<open>TypeError\<close>.
\<close>

definition for_each_opt :: "'a list option \<Rightarrow> ('a \<Rightarrow> action) \<Rightarrow> action" where
  "for_each_opt xs body = (case xs of None \<Rightarrow> raise TypeError | Some ys \<Rightarrow> for_each ys body)"

text \<open>
  \<open>arches\<close> and \<open>branches\<close> are the members of the two sets in the order in which the
  loops meet them.
\<close>

definition build_all ::
  "env \<Rightarrow> string list \<Rightarrow> string list \<Rightarrow> string list option \<Rightarrow> string \<Rightarrow> string \<Rightarrow> string
     \<Rightarrow> string \<Rightarrow> string set \<Rightarrow> string list option \<Rightarrow> action" where
  "build_all E arches branches dates mkimage_profiles_dir registry organization name stages
       packages =
     (let repo = registry @ ''/'' @ organization in
      for_each branches (\<lambda>branch.
        for_each_opt dates
          (date_body E arches mkimage_profiles_dir repo name stages packages branch)))"

subsection \<open>Command line\<close>

text \<open>
  The command line as \<^verbatim>\<open>argparse\<close> sees it: for each option the values given, or
  \<open>None\<close> when the option is absent.
\<close>

record cli =
  cli_registry :: "string option"
  cli_mkimage_profiles_dir :: "string option"
  cli_organization :: "string option"
  cli_name :: "string option"
  cli_dates :: "string list option"
  cli_arches :: "string list option"
  cli_skip_arches :: "string list option"
  cli_branches :: "string list option"
  cli_skip_branches :: "string list option"
  cli_stages :: "string list option"
  cli_skip_stages :: "string list option"
  cli_packages :: "string list option"

text \<open>The namespace \<^verbatim>\<open>parse_args\<close> returns.\<close>

record args =
  args_registry :: string
  args_mkimage_profiles_dir :: string
  args_organization :: string
  args_name :: string
  args_dates :: "string list option"
  args_arches :: "string set"
  args_skip_arches :: "string list"
  args_branches :: "string set"
  args_skip_branches :: "string list"
  args_stages :: "string set"
  args_skip_stages :: "string list"
  args_packages :: "string list option"

definition all_stages :: "string list" where
  "all_stages = [''build_tarball'', ''build_image'', ''push'', ''clean'', ''test'']"

definition all_arches :: "string list" where
  "all_arches = [''amd64'', ''386'', ''arm64'', ''arm'', ''ppc64le'']"

definition default_arches :: "string list" where
  "default_arches = [''amd64'', ''arm64'']"

definition all_branches :: "string list" where
  "all_branches = [''p9'', ''p10'', ''sisyphus'']"

definition default_branches :: "string list" where
  "default_branches = [''p10'', ''sisyphus'']"

text \<open>
  An option with \<^verbatim>\<open>nargs="+"\<close> takes at least one value; with \<^verbatim>\<open>choices\<close> every value
  must be one of them.
\<close>

definition accepted :: "string list option \<Rightarrow> string list option \<Rightarrow> bool" where
  "accepted choices given =
     (case given of
        None \<Rightarrow> True
      | Some xs \<Rightarrow>
          xs \<noteq> [] \<and> (case choices of None \<Rightarrow> True | Some cs \<Rightarrow> list_all (\<lambda>x. x \<in> set cs) xs))"

definition with_default :: "'a \<Rightarrow> 'a option \<Rightarrow> 'a" where
  "with_default d given = (case given of None \<Rightarrow> d | Some x \<Rightarrow> x)"

text \<open>
  \<^verbatim>\<open>--skip-branches\<close> is declared with \<^verbatim>\<open>choices=all_arches\<close>. A rejected command line
  ends the process with status 2. The default of \<^verbatim>\<open>--mkimage-profiles-dir\<close> is
  \<^verbatim>\<open>~/build/mkimage-profiles\<close> with the home directory in place of \<^verbatim>\<open>~\<close>.
\<close>

definition parse_args :: "env \<Rightarrow> cli \<Rightarrow> error + args" where
  "parse_args E c =
     (if cli_organization c \<noteq> None
         \<and> accepted None (cli_dates c)
         \<and> accepted (Some all_arches) (cli_arches c)
         \<and> accepted (Some all_arches) (cli_skip_arches c)
         \<and> accepted (Some all_branches) (cli_branches c)
         \<and> accepted (Some all_arches) (cli_skip_branches c)
         \<and> accepted (Some all_stages) (cli_stages c)
         \<and> accepted (Some all_stages) (cli_skip_stages c)
         \<and> accepted None (cli_packages c)
      then
        Inr \<lparr>args_registry = with_default ''registry.altlinux.org'' (cli_registry c),
             args_mkimage_profiles_dir =
               with_default (path_join (HOME E) ''build/mkimage-profiles'')
                 (cli_mkimage_profiles_dir c),
             args_organization = with_default [] (cli_organization c),
             args_name = with_default ''archive'' (cli_name c),
             args_dates = cli_dates c,
             args_arches =
               set (with_default default_arches (cli_arches c))
                 - set (with_default [] (cli_skip_arches c)),
             args_skip_arches = with_default [] (cli_skip_arches c),
             args_branches =
               set (with_default default_branches (cli_branches c))
                 - set (with_default [] (cli_skip_branches c)),
             args_skip_branches = with_default [] (cli_skip_branches c),
             args_stages =
               set (with_default all_stages (cli_stages c))
                 - set (with_default [] (cli_skip_stages c)),
             args_skip_stages = with_default [] (cli_skip_stages c),
             args_packages = cli_packages c\<rparr>
      else Inl (SystemExit 2))"

definition main :: "env \<Rightarrow> cli \<Rightarrow> action" where
  "main E c =
     eval_then (parse_args E c) (\<lambda>a.
       (let stages = args_stages a in
        andthen (build_all E (set_order E (args_arches a)) (set_order E (args_branches a))
                   (args_dates a) (args_mkimage_profiles_dir a) (args_registry a)
                   (args_organization a) (args_name a) stages (args_packages a))
                (if_then (''clean'' \<in> stages) (clean E))))"

section \<open>Reading texts and traces\<close>

text \<open>
  The definitions of this section are not part of the script. They say what the
  specification talks about: the lines of a text, the form of a source-list line, the
  commands a trace contains, the order of stages the specification prescribes and the
  commands of each stage.
\<close>



text \<open>
  A source-list line as the specification writes it:
  \<^verbatim>\<open>rpm <repo-root>/<branch>/date/<date> <arch-id> classic\<close>.
\<close>

definition source_line :: "string \<Rightarrow> string \<Rightarrow> string \<Rightarrow> string" where
  "source_line branch ymd arch_id =
     ''rpm '' @ repo_root @ ''/'' @ branch @ ''/date/'' @ ymd @ '' '' @ arch_id @ '' classic''"

text \<open>The commands a trace runs, with their exit status, in order.\<close>

definition commands_of :: "trace \<Rightarrow> (string list \<times> int) list" where
  "commands_of tr =
     concat (map (\<lambda>ev. case ev of Ran p rc \<Rightarrow> [(argv p, rc)] | _ \<Rightarrow> []) tr)"



text \<open>
  The coordinates of the specification: \<^verbatim>\<open>{registry}/{organization}/{name}:{branch}-{date}\<close>
  for a manifest, and the same followed by \<^verbatim>\<open>-{architecture}\<close> for an image.
\<close>

definition manifest_coordinate ::
  "string \<Rightarrow> string \<Rightarrow> string \<Rightarrow> string \<Rightarrow> string \<Rightarrow> string" where
  "manifest_coordinate registry organization name branch date =
     registry @ ''/'' @ organization @ ''/'' @ name @ '':'' @ branch @ ''-'' @ date"

definition image_coordinate ::
  "string \<Rightarrow> string \<Rightarrow> string \<Rightarrow> string \<Rightarrow> string \<Rightarrow> string \<Rightarrow> string" where
  "image_coordinate registry organization name branch date arch =
     manifest_coordinate registry organization name branch date @ ''-'' @ arch"

text \<open>
  The order of stages as the specification prescribes it. Within a cell: tarball, image,
  test, each only if requested. For a (branch, date) pair: the manifest reset if the
  image stage is requested, then the cells of all architectures, then one push if
  requested. For the run: all pairs, branch by branch, then one clean if requested.
\<close>

definition cell_schedule ::
  "string set \<Rightarrow> string \<Rightarrow> string \<Rightarrow> string \<Rightarrow> string \<Rightarrow> string \<Rightarrow> string \<Rightarrow> entered list" where
  "cell_schedule stages registry organization name branch date arch =
     (let manifest = manifest_coordinate registry organization name branch date;
          img = image_coordinate registry organization name branch date arch
      in (if ''build_tarball'' \<in> stages then [In_build_tarball arch branch date] else [])
         @ (if ''build_image'' \<in> stages
            then [In_buildah_build arch branch date manifest img] else [])
         @ (if ''test'' \<in> stages then [In_test arch branch date img] else []))"

definition pair_schedule ::
  "string set \<Rightarrow> string \<Rightarrow> string \<Rightarrow> string \<Rightarrow> string list \<Rightarrow> string \<Rightarrow> string
     \<Rightarrow> entered list" where
  "pair_schedule stages registry organization name arches branch date =
     (let manifest = manifest_coordinate registry organization name branch date
      in (if ''build_image'' \<in> stages then [In_remove_manifest manifest] else [])
         @ concat (map (cell_schedule stages registry organization name branch date) arches)
         @ (if ''push'' \<in> stages then [In_podman_push manifest] else []))"

definition matrix_schedule ::
  "string set \<Rightarrow> string \<Rightarrow> string \<Rightarrow> string \<Rightarrow> string list \<Rightarrow> string list \<Rightarrow> string list
     \<Rightarrow> entered list" where
  "matrix_schedule stages registry organization name arches branches dates =
     concat (map (\<lambda>branch.
       concat (map (pair_schedule stages registry organization name arches branch) dates))
       branches)"

definition run_schedule ::
  "string set \<Rightarrow> string \<Rightarrow> string \<Rightarrow> string \<Rightarrow> string list \<Rightarrow> string list \<Rightarrow> string list
     \<Rightarrow> entered list" where
  "run_schedule stages registry organization name arches branches dates =
     matrix_schedule stages registry organization name arches branches dates
     @ (if ''clean'' \<in> stages then [In_clean] else [])"

text \<open>
  The four checks of the test stage as the specification lists them, each one run of
  the image: the source list contains the branch, the architecture id and the date, and
  a package can be installed.
\<close>

definition smoke_checks :: "string \<Rightarrow> string \<Rightarrow> string \<Rightarrow> string \<Rightarrow> proc list" where
  "smoke_checks img branch arch_id ymd =
     map (\<lambda>command.
            \<lparr>argv = [''podman'', ''run'', ''--rm'', img] @ command,
             cwd = None, input = None, check = True, devnull = False\<rparr>)
       [[''grep'', ''-q'', branch, ''/etc/apt/sources.list.d/alt.list''],
        [''grep'', ''-q'', arch_id, ''/etc/apt/sources.list.d/alt.list''],
        [''grep'', ''-q'', ymd, ''/etc/apt/sources.list.d/alt.list''],
        [''sh'', ''-c'', ''apt-get update && apt-get install -y ncdu'']]"

text \<open>Properties of actions that the statements of the script preserve.\<close>


text \<open>
  The stage calls of a trace, each with the command lines run from its entry to the next
  entry (or to the end of the trace).
\<close>

definition is_entry :: "event \<Rightarrow> bool" where
  "is_entry ev = (case ev of Entered c \<Rightarrow> True | _ \<Rightarrow> False)"

definition block_commands :: "trace \<Rightarrow> string list list" where
  "block_commands tr = map fst (commands_of (takeWhile (\<lambda>ev. \<not> is_entry ev) tr))"

primrec blocks :: "trace \<Rightarrow> (entered \<times> string list list) list" where
  "blocks [] = []"
| "blocks (ev # tr) =
     (case ev of Entered c \<Rightarrow> (c, block_commands tr) # blocks tr | _ \<Rightarrow> blocks tr)"

text \<open>
  What the specification lets a stage do, as commands. The manifest reset, the push and
  the clean are one command each. The tarball stage is one \<^verbatim>\<open>make\<close> with the mapped
  architecture id and the branch. The image stage runs \<^verbatim>\<open>buildah\<close> only: among others it
  creates the working container for the architecture and imports the tarball, and it
  ends with the commit of the container into the manifest as the image. The test stage
  is the four checks with the architecture id and the date as \<open>apt_date\<close> writes it.
\<close>

fun stage_done :: "entered \<Rightarrow> string list list \<Rightarrow> bool" where
  "stage_done (In_remove_manifest manifest) cmds =
     (cmds = [[''buildah'', ''manifest'', ''rm'', manifest]])"
| "stage_done (In_build_tarball arch branch date) cmds =
     (case ARCH_MAP arch of
        None \<Rightarrow> False
      | Some a \<Rightarrow>
          length cmds = 1 \<and> take 1 (hd cmds) = [''make'']
          \<and> ''ARCH='' @ a \<in> set (hd cmds) \<and> ''BRANCH='' @ branch \<in> set (hd cmds))"
| "stage_done (In_buildah_build arch branch date manifest img) cmds =
     (cmds \<noteq> [] \<and> list_all (\<lambda>line. take 1 line = [''buildah'']) cmds
      \<and> [''buildah'', ''from'', ''--arch'', arch, ''--name'', ''archive-docker-'' @ arch,
          ''scratch''] \<in> set cmds
      \<and> [''buildah'', ''add'', ''archive-docker-'' @ arch, ''alt.tar.xz'', ''/''] \<in> set cmds
      \<and> last cmds = [''buildah'', ''commit'', ''--rm'', ''--manifest'', manifest,
                      ''archive-docker-'' @ arch, img])"
| "stage_done (In_test arch branch date img) cmds =
     (case ARCH_MAP arch of
        None \<Rightarrow> False
      | Some a \<Rightarrow>
          (case apt_date date of
             Inl e \<Rightarrow> False
           | Inr ymd \<Rightarrow> cmds = map argv (smoke_checks img branch a ymd)))"
| "stage_done (In_podman_push manifest) cmds =
     (cmds = [[''podman'', ''manifest'', ''push'', manifest, ''docker://'' @ manifest]])"
| "stage_done In_clean cmds = (cmds = [[''podman'', ''system'', ''prune'', ''-af'']])"

definition block_done :: "entered \<times> string list list \<Rightarrow> bool" where
  "block_done b = stage_done (fst b) (snd b)"

text \<open>
  What the action adds to the trace begins with the entry into a stage function; the
  stage calls it adds are a prefix of \<open>sched\<close> and all but the last have done their
  commands; when the action returns they are all of \<open>sched\<close> and all have done their
  commands.
\<close>

definition performs :: "action \<Rightarrow> entered list \<Rightarrow> bool" where
  "performs f sched =
     (\<forall>tr. \<exists>ext. snd (f tr) = tr @ ext
            \<and> block_commands ext = []
            \<and> prefix (map fst (blocks ext)) sched
            \<and> list_all block_done (butlast (blocks ext))
            \<and> (fst (f tr) = None \<longrightarrow>
                 map fst (blocks ext) = sched \<and> list_all block_done (blocks ext)))"

text \<open>
  The action runs the commands \<open>ps\<close> in their order and nothing else, up to the one at
  which it raises, and all of them when it returns.
\<close>

definition issues :: "action \<Rightarrow> proc list \<Rightarrow> bool" where
  "issues f ps =
     (\<forall>tr. \<exists>rcs. length rcs \<le> length ps
            \<and> snd (f tr) = tr @ map (\<lambda>(p, rc). Ran p rc) (zip ps rcs)
            \<and> (fst (f tr) = None \<longrightarrow> length rcs = length ps))"


subsection \<open>Example surroundings and command lines\<close>

text \<open>An enumeration of the sets of architectures and branches, in the order of the tables.\<close>

definition table_order :: "string set \<Rightarrow> string list" where
  "table_order S = filter (\<lambda>x. x \<in> S) (all_arches @ all_branches)"

text \<open>Surroundings in which every command succeeds.\<close>

definition quiet_env :: env where
  "quiet_env =
     \<lparr>exit_code = (\<lambda>tr p. 0), CWD = ''/work'', HOME = ''/root'', set_order = table_order\<rparr>"

text \<open>Surroundings in which \<^verbatim>\<open>buildah from\<close> exits with 125 and every other command with 0.\<close>

definition broken_from_env :: env where
  "broken_from_env =
     \<lparr>exit_code = (\<lambda>tr p. if take 2 (argv p) = [''buildah'', ''from''] then 125 else 0),
      CWD = ''/work'', HOME = ''/root'', set_order = table_order\<rparr>"


text \<open>
  \<^verbatim>\<open>-o alt -a amd64 -b p10 -d <date> --stages <stages>\<close>, with or without the dates.
\<close>

definition example_cli :: "string list option \<Rightarrow> string list \<Rightarrow> cli" where
  "example_cli ds sts =
     \<lparr>cli_registry = None, cli_mkimage_profiles_dir = None, cli_organization = Some ''alt'',
      cli_name = None, cli_dates = ds, cli_arches = Some [''amd64''],
      cli_skip_arches = None, cli_branches = Some [''p10''], cli_skip_branches = None,
      cli_stages = Some sts, cli_skip_stages = None, cli_packages = None\<rparr>"

text \<open>\<^verbatim>\<open>-o alt -d 2024-01-15 -b p10 sisyphus --skip-branches p10\<close>.\<close>

definition skip_branch_cli :: cli where
  "skip_branch_cli =
     \<lparr>cli_registry = None, cli_mkimage_profiles_dir = None, cli_organization = Some ''alt'',
      cli_name = None, cli_dates = Some [''2024-01-15''], cli_arches = None,
      cli_skip_arches = None, cli_branches = Some [''p10'', ''sisyphus''],
      cli_skip_branches = Some [''p10''], cli_stages = None, cli_skip_stages = None,
      cli_packages = None\<rparr>"

text \<open>\<^verbatim>\<open>-o alt -d 2024-01-15 -a <arches>\<close>.\<close>

definition arches_cli :: "string list \<Rightarrow> cli" where
  "arches_cli xs =
     \<lparr>cli_registry = None, cli_mkimage_profiles_dir = None, cli_organization = Some ''alt'',
      cli_name = None, cli_dates = Some [''2024-01-15''], cli_arches = Some xs,
      cli_skip_arches = None, cli_branches = None, cli_skip_branches = None,
      cli_stages = None, cli_skip_stages = None, cli_packages = None\<rparr>"

section \<open>Properties\<close>

subsection \<open>Dates and the source list\<close>







lemma zero_pad2: "zero_pad 2 n = [digit_char (n div 10 mod 10), digit_char (n mod 10)]"
  by (simp add: numeral_2_eq_2)



lemma fromisoformat_InlD: "fromisoformat s = Inl e \<Longrightarrow> e = ValueError s"
  unfolding fromisoformat_def
  by (auto split: if_splits option.splits)




lemma lstrip_LF_rpm: "lstrip (LF # CHR ''r'' # s) = CHR ''r'' # s"
  by (simp add: lstrip_def is_space_def LF_def)



lemmas date_defs =
  fromisoformat_def parse_isoformat_date_def parse_digits_def is_digit_def digit_val_def
  days_in_month_def is_leap_def

lemma fromisoformat_example:
  "fromisoformat ''2024-01-15'' = Inr \<lparr>year = 2024, month = 1, day = 15\<rparr>"
  by (simp add: date_defs)


lemma fromisoformat_bad: "fromisoformat ''2024-13-45'' = Inl (ValueError ''2024-13-45'')"
  by (simp add: date_defs)

lemma fromisoformat_not_a_date: "fromisoformat ''not-a-date'' = Inl (ValueError ''not-a-date'')"
  by (simp add: date_defs)

lemma digit_char_values:
  "digit_char 0 = CHR ''0''" "digit_char 1 = CHR ''1''" "digit_char 2 = CHR ''2''"
  "digit_char 3 = CHR ''3''" "digit_char 4 = CHR ''4''" "digit_char 5 = CHR ''5''"
  "digit_char 6 = CHR ''6''" "digit_char 7 = CHR ''7''" "digit_char 8 = CHR ''8''"
  "digit_char 9 = CHR ''9''" "digit_char (Suc 0) = CHR ''1''"
  using char_of_char [of "CHR ''0''", where ?'a = nat]
    char_of_char [of "CHR ''1''", where ?'a = nat]
    char_of_char [of "CHR ''2''", where ?'a = nat]
    char_of_char [of "CHR ''3''", where ?'a = nat]
    char_of_char [of "CHR ''4''", where ?'a = nat]
    char_of_char [of "CHR ''5''", where ?'a = nat]
    char_of_char [of "CHR ''6''", where ?'a = nat]
    char_of_char [of "CHR ''7''", where ?'a = nat]
    char_of_char [of "CHR ''8''", where ?'a = nat]
    char_of_char [of "CHR ''9''", where ?'a = nat]
  by (simp_all add: digit_char_def)

lemma show_nat_999: "show_nat 999 = ''999''"
  by (simp add: show_nat.simps [of 999] show_nat.simps [of 99] show_nat.simps [of 9]
        digit_char_values)

lemma show_nat_2024: "show_nat 2024 = ''2024''"
  by (simp add: show_nat.simps [of 2024] show_nat.simps [of 202] show_nat.simps [of 20]
        show_nat.simps [of 2] digit_char_values)

lemma apt_date_example: "apt_date ''2024-01-15'' = Inr ''2024/01/15''"
  by (simp add: apt_date_def fromisoformat_example strftime_Ymd_def show_nat_2024 zero_pad2
        digit_char_values)


lemma ARCH_MAP_amd64: "ARCH_MAP ''amd64'' = Some ''x86_64''"
  by (simp add: ARCH_MAP_def)




text \<open>
  Claim C8, as stated, fails: with an architecture of the table, a date string that is
  not a date makes the generation raise \<^verbatim>\<open>ValueError\<close>.
\<close>

theorem source_list_malformed_date:
  "ARCH_MAP ''amd64'' = Some ''x86_64''
   \<and> generate_source_list ''amd64'' ''p10'' ''not-a-date'' = Inl (ValueError ''not-a-date'')"
  by (simp add: ARCH_MAP_amd64 generate_source_list_def apt_date_def fromisoformat_not_a_date)

text \<open>
  Claim C8, amended. The generation of the source list is a function of (architecture,
  branch, date) alone with exactly two failure modes, whatever the branch: it returns
  the text if and only if the architecture is in the table and \<open>fromisoformat\<close> accepts
  the date string; a date string that is not accepted raises \<^verbatim>\<open>ValueError\<close>, whatever the
  architecture; an accepted date with an architecture outside the table raises
  \<^verbatim>\<open>KeyError\<close>.
\<close>

theorem source_list_failures:
  "((\<exists>text. generate_source_list arch branch date = Inr text)
      = (arch \<in> dom ARCH_MAP \<and> (\<exists>d. fromisoformat date = Inr d)))
   \<and> ((\<forall>d. fromisoformat date \<noteq> Inr d)
        \<longrightarrow> generate_source_list arch branch date = Inl (ValueError date))
   \<and> ((\<exists>d. fromisoformat date = Inr d) \<and> arch \<notin> dom ARCH_MAP
        \<longrightarrow> generate_source_list arch branch date = Inl (KeyError arch))"
proof (cases "fromisoformat date")
  case (Inl e)
  then have "e = ValueError date" by (rule fromisoformat_InlD)
  then show ?thesis using Inl by (simp add: generate_source_list_def apt_date_def)
next
  case (Inr d)
  then show ?thesis
    by (cases "ARCH_MAP arch")
       (auto simp: generate_source_list_def apt_date_def arch_lookup_def)
qed

theorem source_list_failures_witness:
  "(\<exists>text. generate_source_list ''amd64'' ''p10'' ''2024-01-15'' = Inr text)
   \<and> generate_source_list ''amd64'' ''p10'' ''not-a-date'' = Inl (ValueError ''not-a-date'')
   \<and> generate_source_list ''riscv64'' ''p10'' ''2024-01-15'' = Inl (KeyError ''riscv64'')"
proof -
  have r: "ARCH_MAP ''riscv64'' = None" by (simp add: ARCH_MAP_def)
  show ?thesis
    using source_list_failures [of "''amd64''" "''p10''" "''2024-01-15''"]
      source_list_failures [of "''amd64''" "''p10''" "''not-a-date''"]
      source_list_failures [of "''riscv64''" "''p10''" "''2024-01-15''"]
      ARCH_MAP_amd64 fromisoformat_example fromisoformat_not_a_date r
    by (simp add: dom_def)
qed

subsection \<open>Statements\<close>

lemma andthen_None: "f tr = (None, tr') \<Longrightarrow> andthen f g tr = g tr'"
  by (simp add: andthen_def)

lemma andthen_Some: "f tr = (Some e, tr') \<Longrightarrow> andthen f g tr = (Some e, tr')"
  by (simp add: andthen_def)

lemma andthen_emit: "andthen (emit ev) g tr = g (tr @ [ev])"
  by (simp add: andthen_def emit_def)

lemma andthen_skip: "andthen skip g = g"
  by (rule ext) (simp add: andthen_def skip_def)

lemma for_each_skip: "for_each xs (\<lambda>x. skip) = skip"
  by (induction xs) (simp_all add: andthen_skip)

lemma subprocess_run_unchecked:
  "\<not> check p \<Longrightarrow> subprocess_run E p tr = (None, tr @ [Ran p (exit_code E tr p)])"
  by (simp add: subprocess_run_def Let_def)

subsection \<open>Events added by an action\<close>













subsection \<open>No stage of a cell removes a manifest\<close>








lemma remove_manifest_run:
  "remove_manifest E name tr =
     (None, tr @ [Entered (In_remove_manifest name),
                  Ran (remove_manifest_proc name)
                    (exit_code E (tr @ [Entered (In_remove_manifest name)])
                       (remove_manifest_proc name))])"
  by (simp add: remove_manifest_def andthen_emit subprocess_run_unchecked
        remove_manifest_proc_def)




subsection \<open>Best-effort removals\<close>

text \<open>
  Claim C9. The removals of a manifest, an image and a working container never raise:
  for every name and every exit status each of them runs its one \<^verbatim>\<open>buildah\<close> command
  with both output streams discarded and without checking the status, returns normally,
  and the statement that follows runs.
\<close>

theorem removals_never_raise:
  "let pm = \<lparr>argv = [''buildah'', ''manifest'', ''rm'', name],
              cwd = None, input = None, check = False, devnull = True\<rparr>;
       pi = \<lparr>argv = [''buildah'', ''image'', ''rm'', name],
              cwd = None, input = None, check = False, devnull = True\<rparr>;
       pc = \<lparr>argv = [''buildah'', ''rm'', name],
              cwd = None, input = None, check = False, devnull = True\<rparr>
   in remove_manifest E name tr =
        (None, tr @ [Entered (In_remove_manifest name),
                     Ran pm (exit_code E (tr @ [Entered (In_remove_manifest name)]) pm)])
      \<and> remove_image E name tr = (None, tr @ [Ran pi (exit_code E tr pi)])
      \<and> remove_container E name tr = (None, tr @ [Ran pc (exit_code E tr pc)])
      \<and> andthen (remove_manifest E name) next_statement tr
          = next_statement (snd (remove_manifest E name tr))
      \<and> andthen (remove_image E name) next_statement tr
          = next_statement (snd (remove_image E name tr))
      \<and> andthen (remove_container E name) next_statement tr
          = next_statement (snd (remove_container E name tr))"
  by (simp add: Let_def remove_manifest_run remove_manifest_proc_def remove_image_def
        remove_container_def subprocess_run_unchecked andthen_def)

subsection \<open>Stage calls and their commands\<close>

lemma commands_of_append: "commands_of (a @ b) = commands_of a @ commands_of b"
  by (simp add: commands_of_def)

lemma commands_of_simps:
  "commands_of [] = []"
  "commands_of (Entered c # tr) = commands_of tr"
  "commands_of (Ran p rc # tr) = (argv p, rc) # commands_of tr"
  "commands_of (Write_text f t # tr) = commands_of tr"
  "commands_of (Mkdir d # tr) = commands_of tr"
  by (simp_all add: commands_of_def)

lemma is_entry_simps:
  "is_entry (Entered c)" "\<not> is_entry (Ran p rc)" "\<not> is_entry (Write_text f t)"
  "\<not> is_entry (Mkdir d)"
  by (simp_all add: is_entry_def)

lemma block_commands_simps:
  "block_commands [] = []"
  "block_commands (Entered c # tr) = []"
  "block_commands (Ran p rc # tr) = argv p # block_commands tr"
  "block_commands (Write_text f t # tr) = block_commands tr"
  "block_commands (Mkdir d # tr) = block_commands tr"
  by (simp_all add: block_commands_def is_entry_simps commands_of_simps)

lemma blocks_simps:
  "blocks (Entered c # tr) = (c, block_commands tr) # blocks tr"
  "blocks (Ran p rc # tr) = blocks tr"
  "blocks (Write_text f t # tr) = blocks tr"
  "blocks (Mkdir d # tr) = blocks tr"
  by simp_all

text \<open>Events other than entries: they make no block, and their commands are one block's.\<close>

lemma no_entry_blocks:
  "list_all (\<lambda>ev. \<not> is_entry ev) tr \<Longrightarrow> blocks tr = []"
proof (induction tr)
  case Nil
  show ?case by simp
next
  case (Cons ev tr)
  then show ?case by (cases ev) (simp_all add: is_entry_simps)
qed

lemma no_entry_block_commands:
  "list_all (\<lambda>ev. \<not> is_entry ev) tr \<Longrightarrow> block_commands tr = map fst (commands_of tr)"
proof (induction tr)
  case Nil
  show ?case by (simp add: block_commands_simps commands_of_simps)
next
  case (Cons ev tr)
  then show ?case
    by (cases ev) (simp_all add: is_entry_simps block_commands_simps commands_of_simps)
qed

lemma block_commands_append:
  "block_commands b = [] \<Longrightarrow> block_commands (a @ b) = block_commands a"
proof (induction a)
  case Nil
  then show ?case by (simp add: block_commands_simps)
next
  case (Cons ev a)
  then show ?case by (cases ev) (simp_all add: block_commands_simps)
qed

lemma blocks_append:
  "block_commands b = [] \<Longrightarrow> blocks (a @ b) = blocks a @ blocks b"
proof (induction a)
  case Nil
  show ?case by simp
next
  case (Cons ev a)
  then show ?case by (cases ev) (simp_all add: block_commands_append)
qed

text \<open>Every command of a trace is in the block of a stage call, or before the first.\<close>

lemma commands_in_blocks:
  "map fst (commands_of tr) = block_commands tr @ concat (map snd (blocks tr))"
proof (induction tr)
  case Nil
  show ?case by (simp add: block_commands_simps commands_of_simps)
next
  case (Cons ev tr)
  then show ?case
    by (cases ev) (simp_all add: block_commands_simps commands_of_simps)
qed

lemma performsI:
  "(\<And>tr. \<exists>ext. snd (f tr) = tr @ ext
            \<and> block_commands ext = []
            \<and> prefix (map fst (blocks ext)) sched
            \<and> list_all block_done (butlast (blocks ext))
            \<and> (fst (f tr) = None \<longrightarrow>
                 map fst (blocks ext) = sched \<and> list_all block_done (blocks ext)))
   \<Longrightarrow> performs f sched"
  by (simp only: performs_def simp_thms)

lemma performsD:
  "performs f sched \<Longrightarrow>
     \<exists>ext. snd (f tr) = tr @ ext
            \<and> block_commands ext = []
            \<and> prefix (map fst (blocks ext)) sched
            \<and> list_all block_done (butlast (blocks ext))
            \<and> (fst (f tr) = None \<longrightarrow>
                 map fst (blocks ext) = sched \<and> list_all block_done (blocks ext))"
  by (simp only: performs_def)

lemma performs_skip: "performs skip []"
  by (rule performsI) (simp add: skip_def block_commands_simps)

lemma performs_raise: "performs (raise e) sched"
  by (rule performsI) (simp add: raise_def block_commands_simps)

lemma list_all_butlast: "list_all P xs \<Longrightarrow> list_all P (butlast xs)"
  by (induction xs) simp_all

lemma performs_andthen:
  assumes "performs f a" and "performs g b"
  shows "performs (andthen f g) (a @ b)"
proof (rule performsI)
  fix tr
  obtain r tr1 where f: "f tr = (r, tr1)" by (cases "f tr")
  from performsD [OF assms(1), of tr] obtain e1 where
    h1: "snd (f tr) = tr @ e1
            \<and> block_commands e1 = []
            \<and> prefix (map fst (blocks e1)) a
            \<and> list_all block_done (butlast (blocks e1))
            \<and> (fst (f tr) = None \<longrightarrow>
                 map fst (blocks e1) = a \<and> list_all block_done (blocks e1))" ..
  note e1 = h1 [THEN conjunct1]
    and c1 = h1 [THEN conjunct2, THEN conjunct1]
    and p1 = h1 [THEN conjunct2, THEN conjunct2, THEN conjunct1]
    and d1 = h1 [THEN conjunct2, THEN conjunct2, THEN conjunct2, THEN conjunct1]
    and n1 = h1 [THEN conjunct2, THEN conjunct2, THEN conjunct2, THEN conjunct2]
  have t1: "tr1 = tr @ e1" using e1 by (simp only: f snd_conv)
  show "\<exists>ext. snd (andthen f g tr) = tr @ ext
            \<and> block_commands ext = []
            \<and> prefix (map fst (blocks ext)) (a @ b)
            \<and> list_all block_done (butlast (blocks ext))
            \<and> (fst (andthen f g tr) = None \<longrightarrow>
                 map fst (blocks ext) = a @ b \<and> list_all block_done (blocks ext))"
  proof (cases r)
    case None
    have fn: "fst (f tr) = None" by (simp only: f None fst_conv)
    have fa: "map fst (blocks e1) = a" using n1 fn by (simp only: simp_thms)
    have da: "list_all block_done (blocks e1)" using n1 fn by (simp only: simp_thms)
    from performsD [OF assms(2), of tr1] obtain e2 where
      h2: "snd (g tr1) = tr1 @ e2
            \<and> block_commands e2 = []
            \<and> prefix (map fst (blocks e2)) b
            \<and> list_all block_done (butlast (blocks e2))
            \<and> (fst (g tr1) = None \<longrightarrow>
                 map fst (blocks e2) = b \<and> list_all block_done (blocks e2))" ..
    note e2 = h2 [THEN conjunct1]
      and c2 = h2 [THEN conjunct2, THEN conjunct1]
      and p2 = h2 [THEN conjunct2, THEN conjunct2, THEN conjunct1]
      and d2 = h2 [THEN conjunct2, THEN conjunct2, THEN conjunct2, THEN conjunct1]
      and n2 = h2 [THEN conjunct2, THEN conjunct2, THEN conjunct2, THEN conjunct2]
    have e: "andthen f g tr = g tr1" using f None by (simp add: andthen_def)
    have bl: "blocks (e1 @ e2) = blocks e1 @ blocks e2" using c2 by (rule blocks_append)
    have s1: "snd (andthen f g tr) = tr @ (e1 @ e2)" using e2 by (simp only: e t1 append_assoc)
    have s2: "block_commands (e1 @ e2) = []"
      using block_commands_append [OF c2, of e1] c1 by simp
    have s3: "prefix (map fst (blocks (e1 @ e2))) (a @ b)"
      using p2 by (simp only: bl map_append fa same_prefix_prefix)
    have s4: "list_all block_done (butlast (blocks (e1 @ e2)))"
    proof (cases "blocks e2 = []")
      case True
      have "list_all block_done (butlast (blocks e1))" using da by (rule list_all_butlast)
      then show ?thesis by (simp only: bl True append_Nil2)
    next
      case False
      have "butlast (blocks e1 @ blocks e2) = blocks e1 @ butlast (blocks e2)"
        using False by (simp add: butlast_append)
      then show ?thesis using da d2 by (simp only: bl list_all_append simp_thms)
    qed
    have s5: "fst (andthen f g tr) = None \<longrightarrow>
                 map fst (blocks (e1 @ e2)) = a @ b \<and> list_all block_done (blocks (e1 @ e2))"
    proof
      assume "fst (andthen f g tr) = None"
      then have gn: "fst (g tr1) = None" by (simp only: e)
      have fb: "map fst (blocks e2) = b" using n2 gn by (simp only: simp_thms)
      have db: "list_all block_done (blocks e2)" using n2 gn by (simp only: simp_thms)
      show "map fst (blocks (e1 @ e2)) = a @ b \<and> list_all block_done (blocks (e1 @ e2))"
        using da db by (simp only: bl map_append fa fb list_all_append simp_thms)
    qed
    show ?thesis
      by (rule exI [of _ "e1 @ e2"], intro conjI) (fact s1 s2 s3 s4 s5)+
  next
    case (Some err)
    have e: "andthen f g tr = (Some err, tr1)" using f Some by (simp add: andthen_def)
    have s1: "snd (andthen f g tr) = tr @ e1" by (simp only: e t1 snd_conv)
    have s3: "prefix (map fst (blocks e1)) (a @ b)" using p1 by (rule prefix_prefix)
    have s5: "fst (andthen f g tr) = None \<longrightarrow>
                 map fst (blocks e1) = a @ b \<and> list_all block_done (blocks e1)"
      by (simp add: e)
    show ?thesis
      by (rule exI [of _ e1], intro conjI) (fact s1 c1 s3 d1 s5)+
  qed
qed

lemma performs_if_then:
  assumes "performs f a"
  shows "performs (if_then b f) (if b then a else [])"
proof (cases b)
  case True
  have "if_then b f = f" using True unfolding if_then_def by (rule if_P)
  then show ?thesis using assms True by (simp only: if_True)
next
  case False
  have "if_then b f = skip" using False unfolding if_then_def by (rule if_not_P)
  then show ?thesis using performs_skip False by (simp only: if_False)
qed

lemma performs_for_each:
  assumes "\<And>x. performs (body x) (sch x)"
  shows "performs (for_each xs body) (concat (map sch xs))"
proof (induction xs)
  case Nil
  show ?case using performs_skip by simp
next
  case (Cons x xs)
  have "performs (andthen (body x) (for_each xs body)) (sch x @ concat (map sch xs))"
    using assms Cons by (rule performs_andthen)
  then show ?case by simp
qed

lemma performs_for_each_opt:
  assumes "\<And>x. performs (body x) (sch x)"
  shows "performs (for_each_opt xs body) (concat (map sch (with_default [] xs)))"
proof (cases xs)
  case None
  then show ?thesis using performs_raise [of TypeError "[]"]
    by (simp add: for_each_opt_def with_default_def)
next
  case (Some ys)
  then show ?thesis using performs_for_each [of body sch ys, OF assms]
    by (simp add: for_each_opt_def with_default_def)
qed

text \<open>
  A stage function: its call is recorded first; what follows enters no other stage
  function, and when it returns it has run the commands of the stage.
\<close>

lemma performs_stage:
  assumes "\<And>tr. \<exists>rest. snd (f tr) = tr @ rest \<and> list_all (\<lambda>ev. \<not> is_entry ev) rest
                   \<and> (fst (f tr) = None \<longrightarrow> stage_done c (map fst (commands_of rest)))"
  shows "performs (andthen (emit (Entered c)) f) [c]"
proof (rule performsI)
  fix tr
  from assms [of "tr @ [Entered c]"] obtain rest where
    h: "snd (f (tr @ [Entered c])) = (tr @ [Entered c]) @ rest
         \<and> list_all (\<lambda>ev. \<not> is_entry ev) rest
         \<and> (fst (f (tr @ [Entered c])) = None \<longrightarrow> stage_done c (map fst (commands_of rest)))" ..
  note r = h [THEN conjunct1] and s = h [THEN conjunct2, THEN conjunct1]
    and d = h [THEN conjunct2, THEN conjunct2]
  have e: "andthen (emit (Entered c)) f tr = f (tr @ [Entered c])"
    by (simp add: andthen_def emit_def)
  have b: "blocks (Entered c # rest) = [(c, map fst (commands_of rest))]"
    by (simp add: no_entry_blocks [OF s] no_entry_block_commands [OF s])
  have s1: "snd (andthen (emit (Entered c)) f tr) = tr @ (Entered c # rest)"
    using r by (simp add: e)
  have s2: "block_commands (Entered c # rest) = []" by (simp add: block_commands_simps)
  have s3: "prefix (map fst (blocks (Entered c # rest))) [c]" by (simp only: b) simp
  have s4: "list_all block_done (butlast (blocks (Entered c # rest)))" by (simp only: b) simp
  have s5: "fst (andthen (emit (Entered c)) f tr) = None \<longrightarrow>
              map fst (blocks (Entered c # rest)) = [c]
              \<and> list_all block_done (blocks (Entered c # rest))"
    using d by (simp only: e b) (simp add: block_done_def)
  show "\<exists>ext. snd (andthen (emit (Entered c)) f tr) = tr @ ext
            \<and> block_commands ext = []
            \<and> prefix (map fst (blocks ext)) [c]
            \<and> list_all block_done (butlast (blocks ext))
            \<and> (fst (andthen (emit (Entered c)) f tr) = None \<longrightarrow>
                 map fst (blocks ext) = [c] \<and> list_all block_done (blocks ext))"
    by (rule exI [of _ "Entered c # rest"], intro conjI) (fact s1 s2 s3 s4 s5)+
qed

subsection \<open>The commands of each stage\<close>

lemma for_each_map: "for_each (map h xs) body = for_each xs (\<lambda>x. body (h x))"
  by (induction xs) simp_all

lemma for_each_checked:
  assumes "list_all check ps"
  shows "\<exists>rcs. length rcs \<le> length ps
          \<and> snd (for_each ps (subprocess_run E) tr) = tr @ map (\<lambda>(p, rc). Ran p rc) (zip ps rcs)
          \<and> list_all (\<lambda>rc. rc = 0) (butlast rcs)
          \<and> (case fst (for_each ps (subprocess_run E) tr) of
                None \<Rightarrow> length rcs = length ps \<and> list_all (\<lambda>rc. rc = 0) rcs
              | Some e \<Rightarrow> rcs \<noteq> [] \<and> last rcs \<noteq> 0
                   \<and> e = CalledProcessError (last rcs) (argv (ps ! (length rcs - 1))))"
  using assms
proof (induction ps arbitrary: tr)
  case Nil
  show ?case by (simp add: skip_def)
next
  case (Cons p ps)
  then have cp: "check p" and cps: "list_all check ps" by simp_all
  define rc where "rc = exit_code E tr p"
  show ?case
  proof (cases "rc = 0")
    case False
    have r: "for_each (p # ps) (subprocess_run E) tr
             = (Some (CalledProcessError rc (argv p)), tr @ [Ran p rc])"
      using False cp by (simp add: andthen_def subprocess_run_def Let_def rc_def)
    show ?thesis
      unfolding r using False by (intro exI [of _ "[rc]"]) simp
  next
    case True
    have r: "for_each (p # ps) (subprocess_run E) tr
             = for_each ps (subprocess_run E) (tr @ [Ran p 0])"
      using True by (simp add: andthen_def subprocess_run_def Let_def rc_def)
    from Cons.IH [OF cps, of "tr @ [Ran p 0]"] obtain rcs where
      a: "length rcs \<le> length ps"
      and b: "snd (for_each ps (subprocess_run E) (tr @ [Ran p 0]))
              = (tr @ [Ran p 0]) @ map (\<lambda>(p, rc). Ran p rc) (zip ps rcs)"
      and c: "list_all (\<lambda>rc. rc = 0) (butlast rcs)"
      and d: "case fst (for_each ps (subprocess_run E) (tr @ [Ran p 0])) of
                None \<Rightarrow> length rcs = length ps \<and> list_all (\<lambda>rc. rc = 0) rcs
              | Some e \<Rightarrow> rcs \<noteq> [] \<and> last rcs \<noteq> 0
                   \<and> e = CalledProcessError (last rcs) (argv (ps ! (length rcs - 1)))"
      by (elim exE conjE)
    have a': "length (0 # rcs) \<le> length (p # ps)" using a by simp
    have b': "snd (for_each (p # ps) (subprocess_run E) tr)
              = tr @ map (\<lambda>(p, rc). Ran p rc) (zip (p # ps) (0 # rcs))"
      unfolding r b by simp
    have c': "list_all (\<lambda>rc. rc = 0) (butlast (0 # rcs))" using c by simp
    have d': "case fst (for_each (p # ps) (subprocess_run E) tr) of
                None \<Rightarrow> length (0 # rcs) = length (p # ps) \<and> list_all (\<lambda>rc. rc = 0) (0 # rcs)
              | Some e \<Rightarrow> (0 # rcs) \<noteq> [] \<and> last (0 # rcs) \<noteq> 0
                   \<and> e = CalledProcessError (last (0 # rcs))
                           (argv ((p # ps) ! (length (0 # rcs) - 1)))"
    proof (cases "fst (for_each ps (subprocess_run E) (tr @ [Ran p 0]))")
      case None
      then show ?thesis unfolding r using d by simp
    next
      case (Some e)
      then have n: "rcs \<noteq> []" and l: "last rcs \<noteq> 0"
        and e: "e = CalledProcessError (last rcs) (argv (ps ! (length rcs - 1)))"
        using d by simp_all
      have i: "(p # ps) ! length rcs = ps ! (length rcs - 1)" using n by (cases rcs) simp_all
      show ?thesis unfolding r Some using n l e i by simp
    qed
    from a' b' c' d' show ?thesis by (intro exI [of _ "0 # rcs"] conjI)
  qed
qed

lemma test_commands_ok:
  assumes "ARCH_MAP arch = Some arch_id" and "fromisoformat date = Inr d"
  shows "test_commands arch branch date =
           Inr [[''grep'', ''-q'', branch, ''/etc/apt/sources.list.d/alt.list''],
                [''grep'', ''-q'', arch_id, ''/etc/apt/sources.list.d/alt.list''],
                [''grep'', ''-q'', strftime_Ymd d, ''/etc/apt/sources.list.d/alt.list''],
                [''sh'', ''-c'', ''apt-get update && apt-get install -y ncdu'']]"
  using assms by (simp add: test_commands_def arch_lookup_def apt_date_def)

lemma test_runs_checks:
  assumes "ARCH_MAP arch = Some arch_id" and "fromisoformat date = Inr d"
  shows "test E arch branch date img tr =
           for_each (smoke_checks img branch arch_id (strftime_Ymd d)) (subprocess_run E)
             (tr @ [Entered (In_test arch branch date img)])"
  unfolding test_def smoke_checks_def for_each_map
  by (simp add: andthen_emit eval_then_def test_commands_ok [OF assms] podman_run_proc_def)

lemma test_raises_early:
  assumes "ARCH_MAP arch = None \<or> (\<exists>e. fromisoformat date = Inl e)"
  shows "\<exists>e. test E arch branch date img tr
            = (Some e, tr @ [Entered (In_test arch branch date img)])"
  using assms
  by (auto simp add: test_def andthen_emit eval_then_def test_commands_def arch_lookup_def
        apt_date_def raise_def split: option.splits sum.splits)

lemma ran_no_entry: "list_all (\<lambda>ev. \<not> is_entry ev) (map (\<lambda>(p, rc). Ran p rc) xs)"
  by (induction xs) (auto simp add: is_entry_simps)

lemma ran_commands:
  "map fst (commands_of (map (\<lambda>(p, rc). Ran p rc) xs)) = map (\<lambda>x. argv (fst x)) xs"
  by (induction xs) (auto simp add: commands_of_simps)

lemma performs_remove_manifest:
  "performs (remove_manifest E manifest) [In_remove_manifest manifest]"
  unfolding remove_manifest_def
  by (rule performs_stage)
     (simp add: subprocess_run_def Let_def remove_manifest_proc_def is_entry_simps
        commands_of_simps)

lemma performs_podman_push: "performs (podman_push E manifest) [In_podman_push manifest]"
  unfolding podman_push_def
  by (rule performs_stage)
     (simp add: subprocess_run_def Let_def podman_push_proc_def is_entry_simps
        commands_of_simps)

lemma performs_clean: "performs (clean E) [In_clean]"
  unfolding clean_def
  by (rule performs_stage)
     (simp add: subprocess_run_def Let_def clean_proc_def is_entry_simps commands_of_simps)

lemma performs_build_tarball:
  "performs (build_tarball E arch branch date dir) [In_build_tarball arch branch date]"
  unfolding build_tarball_def
proof (rule performs_stage)
  fix tr
  show "\<exists>rest. snd (andthen (create_apt_files E arch branch date)
                      (let out_dir = path_join (CWD E) arch
                       in andthen (emit (Mkdir out_dir))
                            (make_tool E arch branch out_dir dir)) tr) = tr @ rest
          \<and> list_all (\<lambda>ev. \<not> is_entry ev) rest
          \<and> (fst (andthen (create_apt_files E arch branch date)
                      (let out_dir = path_join (CWD E) arch
                       in andthen (emit (Mkdir out_dir))
                            (make_tool E arch branch out_dir dir)) tr) = None \<longrightarrow>
               stage_done (In_build_tarball arch branch date) (map fst (commands_of rest)))"
  proof (cases "generate_source_list arch branch date")
    case (Inl e)
    then show ?thesis
      by (simp add: create_apt_files_def andthen_def emit_def eval_then_def raise_def
            is_entry_simps)
  next
    case (Inr src)
    show ?thesis
    proof (cases "ARCH_MAP arch")
      case None
      then show ?thesis using Inr
        by (simp add: create_apt_files_def andthen_def emit_def eval_then_def raise_def
              is_entry_simps make_tool_def arch_lookup_def Let_def)
    next
      case (Some a)
      then show ?thesis using Inr
        by (simp add: create_apt_files_def andthen_def emit_def eval_then_def raise_def
              is_entry_simps make_tool_def arch_lookup_def Let_def subprocess_run_def
              commands_of_simps)
    qed
  qed
qed

lemma performs_test: "performs (test E arch branch date img) [In_test arch branch date img]"
proof (cases "ARCH_MAP arch = None \<or> (\<exists>e. fromisoformat date = Inl e)")
  case True
  show ?thesis
  proof (rule performsI)
    fix tr
    from test_raises_early [OF True, of E branch img tr] obtain e where
      t: "test E arch branch date img tr = (Some e, tr @ [Entered (In_test arch branch date img)])"
      ..
    show "\<exists>ext. snd (test E arch branch date img tr) = tr @ ext
            \<and> block_commands ext = []
            \<and> prefix (map fst (blocks ext)) [In_test arch branch date img]
            \<and> list_all block_done (butlast (blocks ext))
            \<and> (fst (test E arch branch date img tr) = None \<longrightarrow>
                 map fst (blocks ext) = [In_test arch branch date img]
                 \<and> list_all block_done (blocks ext))"
      by (rule exI [of _ "[Entered (In_test arch branch date img)]"])
         (simp add: t block_commands_simps)
  qed
next
  case False
  then obtain a d where a: "ARCH_MAP arch = Some a" and d: "fromisoformat date = Inr d"
    by (cases "ARCH_MAP arch"; cases "fromisoformat date") auto
  define checks where "checks = smoke_checks img branch a (strftime_Ymd d)"
  have c: "list_all check checks" by (simp add: checks_def smoke_checks_def)
  have ap: "apt_date date = Inr (strftime_Ymd d)" using d by (simp add: apt_date_def)
  have e: "test E arch branch date img
           = andthen (emit (Entered (In_test arch branch date img)))
               (for_each checks (subprocess_run E))"
    by (rule ext) (simp add: test_runs_checks [OF a d] checks_def andthen_emit)
  show ?thesis
    unfolding e
  proof (rule performs_stage)
    fix tr
    from for_each_checked [OF c, of E tr] obtain rcs where
      h: "length rcs \<le> length checks
          \<and> snd (for_each checks (subprocess_run E) tr)
              = tr @ map (\<lambda>(p, rc). Ran p rc) (zip checks rcs)
          \<and> list_all (\<lambda>rc. rc = 0) (butlast rcs)
          \<and> (case fst (for_each checks (subprocess_run E) tr) of
                None \<Rightarrow> length rcs = length checks \<and> list_all (\<lambda>rc. rc = 0) rcs
              | Some e \<Rightarrow> rcs \<noteq> [] \<and> last rcs \<noteq> 0
                   \<and> e = CalledProcessError (last rcs) (argv (checks ! (length rcs - 1))))" ..
    note s = h [THEN conjunct2, THEN conjunct1]
      and n = h [THEN conjunct2, THEN conjunct2, THEN conjunct2]
    have s3: "fst (for_each checks (subprocess_run E) tr) = None \<longrightarrow>
               stage_done (In_test arch branch date img)
                 (map fst (commands_of (map (\<lambda>(p, rc). Ran p rc) (zip checks rcs))))"
    proof
      assume "fst (for_each checks (subprocess_run E) tr) = None"
      then have l: "length rcs = length checks" using n by simp
      have "map (\<lambda>x. argv (fst x)) (zip checks rcs) = map argv (map fst (zip checks rcs))"
        by simp
      also have "\<dots> = map argv checks" using l by simp
      finally show "stage_done (In_test arch branch date img)
                 (map fst (commands_of (map (\<lambda>(p, rc). Ran p rc) (zip checks rcs))))"
        by (simp only: ran_commands) (simp add: a ap checks_def)
    qed
    show "\<exists>rest. snd (for_each checks (subprocess_run E) tr) = tr @ rest
            \<and> list_all (\<lambda>ev. \<not> is_entry ev) rest
            \<and> (fst (for_each checks (subprocess_run E) tr) = None \<longrightarrow>
                 stage_done (In_test arch branch date img) (map fst (commands_of rest)))"
      by (rule exI [of _ "map (\<lambda>(p, rc). Ran p rc) (zip checks rcs)"], intro conjI)
         (fact s ran_no_entry s3)+
  qed
qed

text \<open>Actions that only run commands.\<close>

lemma issuesI:
  "(\<And>tr. \<exists>rcs. length rcs \<le> length ps
            \<and> snd (f tr) = tr @ map (\<lambda>(p, rc). Ran p rc) (zip ps rcs)
            \<and> (fst (f tr) = None \<longrightarrow> length rcs = length ps))
   \<Longrightarrow> issues f ps"
  by (simp only: issues_def simp_thms)

lemma issuesD:
  "issues f ps \<Longrightarrow>
     \<exists>rcs. length rcs \<le> length ps
            \<and> snd (f tr) = tr @ map (\<lambda>(p, rc). Ran p rc) (zip ps rcs)
            \<and> (fst (f tr) = None \<longrightarrow> length rcs = length ps)"
  by (simp only: issues_def)

lemma issues_skip: "issues skip []"
  by (rule issuesI) (simp add: skip_def)

lemma issues_raise: "issues (raise e) ps"
  by (rule issuesI) (simp add: raise_def exI [of _ "[]"])

lemma issues_subprocess_run: "issues (subprocess_run E p) [p]"
proof (rule issuesI)
  fix tr
  show "\<exists>rcs. length rcs \<le> length [p]
            \<and> snd (subprocess_run E p tr) = tr @ map (\<lambda>(p, rc). Ran p rc) (zip [p] rcs)
            \<and> (fst (subprocess_run E p tr) = None \<longrightarrow> length rcs = length [p])"
    by (rule exI [of _ "[exit_code E tr p]"]) (simp add: subprocess_run_def Let_def)
qed

lemma issues_andthen:
  assumes "issues f a" and "issues g b"
  shows "issues (andthen f g) (a @ b)"
proof (rule issuesI)
  fix tr
  obtain r tr1 where f: "f tr = (r, tr1)" by (cases "f tr")
  from issuesD [OF assms(1), of tr] obtain rcs1 where
    h1: "length rcs1 \<le> length a
            \<and> snd (f tr) = tr @ map (\<lambda>(p, rc). Ran p rc) (zip a rcs1)
            \<and> (fst (f tr) = None \<longrightarrow> length rcs1 = length a)" ..
  note l1 = h1 [THEN conjunct1] and s1 = h1 [THEN conjunct2, THEN conjunct1]
    and n1 = h1 [THEN conjunct2, THEN conjunct2]
  have t1: "tr1 = tr @ map (\<lambda>(p, rc). Ran p rc) (zip a rcs1)" using s1 f by simp
  show "\<exists>rcs. length rcs \<le> length (a @ b)
            \<and> snd (andthen f g tr) = tr @ map (\<lambda>(p, rc). Ran p rc) (zip (a @ b) rcs)
            \<and> (fst (andthen f g tr) = None \<longrightarrow> length rcs = length (a @ b))"
  proof (cases r)
    case None
    have la: "length rcs1 = length a" using n1 f None by simp
    from issuesD [OF assms(2), of tr1] obtain rcs2 where
      h2: "length rcs2 \<le> length b
            \<and> snd (g tr1) = tr1 @ map (\<lambda>(p, rc). Ran p rc) (zip b rcs2)
            \<and> (fst (g tr1) = None \<longrightarrow> length rcs2 = length b)" ..
    note l2 = h2 [THEN conjunct1] and s2 = h2 [THEN conjunct2, THEN conjunct1]
      and n2 = h2 [THEN conjunct2, THEN conjunct2]
    have e: "andthen f g tr = g tr1" using f None by (simp add: andthen_def)
    have z: "zip (a @ b) (rcs1 @ rcs2) = zip a rcs1 @ zip b rcs2" using la by simp
    show ?thesis
      by (rule exI [of _ "rcs1 @ rcs2"]) (use la l2 s2 n2 in \<open>simp add: e z t1\<close>)
  next
    case (Some err)
    have e: "andthen f g tr = (Some err, tr1)" using f Some by (simp add: andthen_def)
    have z: "zip (a @ b) rcs1 = zip a rcs1" using l1 by (simp add: zip_append1)
    show ?thesis
      by (rule exI [of _ rcs1]) (use l1 in \<open>simp add: e z t1\<close>)
  qed
qed

lemma issues_install_packages:
  "issues (install_packages E container packages)
     (if packages = None \<or> packages = Some [] then []
      else [\<lparr>argv = [''buildah'', ''run'', container] @ [''apt-get'', ''update''],
              cwd = None, input = None, check = False, devnull = False\<rparr>]
           @ [\<lparr>argv = [''buildah'', ''run'', container]
                        @ ([''apt-get'', ''install'', ''-y''] @ the packages),
                cwd = None, input = None, check = False, devnull = False\<rparr>]
           @ [\<lparr>argv = [''buildah'', ''run'', container]
                        @ [''sh'', ''-c'',
                           ''rm -f /var/cache/apt/archives/*.rpm /var/cache/apt/*.bin /var/lib/apt/lists/*.*''],
                cwd = None, input = None, check = False, devnull = False\<rparr>])"
proof (cases "packages = None \<or> packages = Some []")
  case True
  then have "install_packages E container packages = skip"
    by (auto simp add: install_packages_def)
  then show ?thesis using True issues_skip by simp
next
  case False
  then obtain ps where p: "packages = Some ps" and n: "ps \<noteq> []" by (cases packages) auto
  have e: "install_packages E container packages =
            andthen (run_command_in_container E container [''apt-get'', ''update''] None)
           (andthen (run_command_in_container E container
                       ([''apt-get'', ''install'', ''-y''] @ ps) None)
                    (run_command_in_container E container
                       [''sh'', ''-c'',
                        ''rm -f /var/cache/apt/archives/*.rpm /var/cache/apt/*.bin /var/lib/apt/lists/*.*'']
                       None))"
    using p n by (simp add: install_packages_def)
  have "issues (install_packages E container packages)
     ([\<lparr>argv = [''buildah'', ''run'', container] @ [''apt-get'', ''update''],
              cwd = None, input = None, check = False, devnull = False\<rparr>]
           @ [\<lparr>argv = [''buildah'', ''run'', container]
                        @ ([''apt-get'', ''install'', ''-y''] @ ps),
                cwd = None, input = None, check = False, devnull = False\<rparr>]
           @ [\<lparr>argv = [''buildah'', ''run'', container]
                        @ [''sh'', ''-c'',
                           ''rm -f /var/cache/apt/archives/*.rpm /var/cache/apt/*.bin /var/lib/apt/lists/*.*''],
                cwd = None, input = None, check = False, devnull = False\<rparr>])"
    unfolding e run_command_in_container_def
    by (intro issues_andthen issues_subprocess_run)
  then show ?thesis using p n by simp
qed

lemma performs_issues:
  assumes "issues f ps" and "stage_done c (map argv ps)"
  shows "performs (andthen (emit (Entered c)) f) [c]"
proof (rule performs_stage)
  fix tr
  from issuesD [OF assms(1), of tr] obtain rcs where
    h: "length rcs \<le> length ps
            \<and> snd (f tr) = tr @ map (\<lambda>(p, rc). Ran p rc) (zip ps rcs)
            \<and> (fst (f tr) = None \<longrightarrow> length rcs = length ps)" ..
  note s = h [THEN conjunct2, THEN conjunct1] and n = h [THEN conjunct2, THEN conjunct2]
  have s3: "fst (f tr) = None \<longrightarrow>
             stage_done c (map fst (commands_of (map (\<lambda>(p, rc). Ran p rc) (zip ps rcs))))"
  proof
    assume "fst (f tr) = None"
    then have l: "length rcs = length ps" using n by simp
    have "map (\<lambda>x. argv (fst x)) (zip ps rcs) = map argv (map fst (zip ps rcs))"
      by simp
    also have "\<dots> = map argv ps" using l by simp
    finally show "stage_done c (map fst (commands_of (map (\<lambda>(p, rc). Ran p rc) (zip ps rcs))))"
      using assms(2) by (simp only: ran_commands)
  qed
  show "\<exists>rest. snd (f tr) = tr @ rest
            \<and> list_all (\<lambda>ev. \<not> is_entry ev) rest
            \<and> (fst (f tr) = None \<longrightarrow> stage_done c (map fst (commands_of rest)))"
    by (rule exI [of _ "map (\<lambda>(p, rc). Ran p rc) (zip ps rcs)"], intro conjI)
       (fact s ran_no_entry s3)+
qed

lemma performs_buildah_build:
  "performs (buildah_build E arch branch date manifest img packages)
     [In_buildah_build arch branch date manifest img]"
proof -
  define container where "container = INTERNAL_CONTAINER @ ''-'' @ arch"
  define pkgs where "pkgs =
     (if packages = None \<or> packages = Some [] then []
      else [\<lparr>argv = [''buildah'', ''run'', container] @ [''apt-get'', ''update''],
              cwd = None, input = None, check = False, devnull = False\<rparr>]
           @ [\<lparr>argv = [''buildah'', ''run'', container]
                        @ ([''apt-get'', ''install'', ''-y''] @ the packages),
                cwd = None, input = None, check = False, devnull = False\<rparr>]
           @ [\<lparr>argv = [''buildah'', ''run'', container]
                        @ [''sh'', ''-c'',
                           ''rm -f /var/cache/apt/archives/*.rpm /var/cache/apt/*.bin /var/lib/apt/lists/*.*''],
                cwd = None, input = None, check = False, devnull = False\<rparr>])"
  define src where "src = (case generate_source_list arch branch date of
                             Inl e \<Rightarrow> None | Inr t \<Rightarrow> Some t)"
  define ps where "ps =
     [\<lparr>argv = [''buildah'', ''image'', ''rm'', img],
        cwd = None, input = None, check = False, devnull = True\<rparr>]
     @ [\<lparr>argv = [''buildah'', ''rm'', container],
        cwd = None, input = None, check = False, devnull = True\<rparr>]
     @ [\<lparr>argv = ''buildah'' # [''from'', ''--arch'', arch, ''--name'', container, ''scratch''],
         cwd = None, input = None, check = False, devnull = False\<rparr>]
     @ [\<lparr>argv = ''buildah'' # [''add'', container, ''alt.tar.xz'', ''/''],
         cwd = Some (path_join (CWD E) arch), input = None, check = False, devnull = False\<rparr>]
     @ [\<lparr>argv = [''buildah'', ''run'', container]
                 @ [''sh'', ''-c'', ''true > /etc/security/limits.d/50-defaults.conf''],
         cwd = None, input = None, check = False, devnull = False\<rparr>]
     @ [\<lparr>argv = [''buildah'', ''run'', container]
                 @ [''sh'', ''-c'', ''cat > /etc/apt/sources.list.d/alt.list''],
         cwd = None, input = src, check = False, devnull = False\<rparr>]
     @ pkgs
     @ [\<lparr>argv = ''buildah'' # [''config'', ''--cmd'',
                               ''['' @ [CHR 0x22] @ ''/bin/bash'' @ [CHR 0x22] @ '']'', container],
         cwd = None, input = None, check = False, devnull = False\<rparr>]
     @ [\<lparr>argv = ''buildah'' # [''commit'', ''--rm'', ''--manifest'', manifest, container, img],
         cwd = None, input = None, check = False, devnull = False\<rparr>]"
  have g: "issues (eval_then (generate_source_list arch branch date) (\<lambda>text.
                 run_command_in_container E container
                   [''sh'', ''-c'', ''cat > /etc/apt/sources.list.d/alt.list''] (Some text)))
            [\<lparr>argv = [''buildah'', ''run'', container]
                 @ [''sh'', ''-c'', ''cat > /etc/apt/sources.list.d/alt.list''],
         cwd = None, input = src, check = False, devnull = False\<rparr>]"
  proof (cases "generate_source_list arch branch date")
    case (Inl e)
    then show ?thesis by (simp only: eval_then_def sum.case issues_raise)
  next
    case (Inr t)
    then have "src = Some t" by (simp add: src_def)
    then show ?thesis using Inr issues_subprocess_run
      by (simp only: eval_then_def sum.case run_command_in_container_def)
  qed
  have i: "issues (install_packages E container packages) pkgs"
    unfolding pkgs_def by (rule issues_install_packages)
  have b: "issues
     (andthen (remove_image E img)
     (andthen (remove_container E container)
     (andthen (buildah E [''from'', ''--arch'', arch, ''--name'', container, ''scratch''] None)
     (andthen (buildah E [''add'', container, ''alt.tar.xz'', ''/'']
                 (Some (path_join (CWD E) arch)))
     (andthen (run_command_in_container E container
                 [''sh'', ''-c'', ''true > /etc/security/limits.d/50-defaults.conf''] None)
     (andthen (eval_then (generate_source_list arch branch date) (\<lambda>text.
                 run_command_in_container E container
                   [''sh'', ''-c'', ''cat > /etc/apt/sources.list.d/alt.list''] (Some text)))
     (andthen (install_packages E container packages)
     (andthen (buildah E [''config'', ''--cmd'', ''['' @ [CHR 0x22] @ ''/bin/bash'' @ [CHR 0x22] @ '']'',
                          container] None)
              (buildah E [''commit'', ''--rm'', ''--manifest'', manifest, container, img]
                 None))))))))) ps"
    unfolding ps_def
    by (intro issues_andthen g i)
       (simp_all only: remove_image_def remove_container_def buildah_def
          run_command_in_container_def issues_subprocess_run)
  have p: "list_all (\<lambda>p. take 1 (argv p) = [''buildah'']) pkgs"
    by (simp add: pkgs_def)
  have d: "stage_done (In_buildah_build arch branch date manifest img) (map argv ps)"
    using p by (simp add: ps_def container_def INTERNAL_CONTAINER_def list_all_iff)
  show ?thesis
    unfolding buildah_build_def Let_def container_def [symmetric]
    using b d by (rule performs_issues)
qed

subsection \<open>Command line\<close>

lemma accepted_set:
  "accepted (Some cs) (Some xs) = (set xs \<noteq> {} \<and> set xs \<subseteq> set cs)"
  by (auto simp: accepted_def list_all_iff)

lemma parse_args_stage_order:
  assumes "set stages' = set (with_default all_stages (cli_stages c))"
  shows "parse_args E (c\<lparr>cli_stages := Some stages'\<rparr>) = parse_args E c"
proof -
  have a: "accepted (Some all_stages) (Some stages') = accepted (Some all_stages) (cli_stages c)"
  proof (cases "cli_stages c")
    case None
    then have "set stages' = set all_stages" using assms by (simp add: with_default_def)
    then show ?thesis using None by (simp add: accepted_set) (simp add: accepted_def all_stages_def)
  next
    case (Some xs)
    then have "set stages' = set xs" using assms by (simp add: with_default_def)
    then show ?thesis using Some by (simp add: accepted_set)
  qed
  have b: "set (with_default all_stages (Some stages')) = set (with_default all_stages (cli_stages c))"
    using assms by (simp add: with_default_def)
  show ?thesis
    unfolding parse_args_def by (simp add: a b)
qed

lemma main_parsed:
  "parse_args E c = Inr a \<Longrightarrow>
   main E c =
     andthen (build_all E (set_order E (args_arches a)) (set_order E (args_branches a))
                (args_dates a) (args_mkimage_profiles_dir a) (args_registry a)
                (args_organization a) (args_name a) (args_stages a) (args_packages a))
             (if_then (''clean'' \<in> args_stages a) (clean E))"
  by (simp add: main_def eval_then_def Let_def)

lemma main_rejected: "parse_args E c = Inl e \<Longrightarrow> main E c tr = (Some e, tr)"
  by (simp add: main_def eval_then_def raise_def)

text \<open>
  The sets of architectures and stages are the selected values (or the defaults) without
  the skipped ones.
\<close>

lemma parse_args_differences:
  assumes "parse_args E c = Inr a"
  shows "args_arches a = set (with_default default_arches (cli_arches c))
                         - set (with_default [] (cli_skip_arches c))
       \<and> args_branches a = set (with_default default_branches (cli_branches c))
                           - set (with_default [] (cli_skip_branches c))
       \<and> args_stages a = set (with_default all_stages (cli_stages c))
                         - set (with_default [] (cli_skip_stages c))"
  using assms unfolding parse_args_def by (auto split: if_splits)

text \<open>
  Claim C5 does not hold of the script: \<^verbatim>\<open>--skip-branches\<close> is declared with the
  architectures as its choices, where \<^verbatim>\<open>--skip-arches\<close> and \<^verbatim>\<open>--skip-stages\<close> have the
  values of their own kind. No branch is among these choices, so a branch cannot be
  skipped: with the branches \<^verbatim>\<open>p10 sisyphus\<close> selected and \<^verbatim>\<open>p10\<close> to skip, where the
  difference is \<^verbatim>\<open>sisyphus\<close>, the command line is rejected and the run ends with status 2
  before anything is done.
\<close>

theorem skip_branches_rejects_branches:
  "set (with_default default_branches (cli_branches skip_branch_cli))
     - set (with_default [] (cli_skip_branches skip_branch_cli)) = {''sisyphus''}
   \<and> accepted (Some all_branches) (cli_skip_branches skip_branch_cli)
   \<and> parse_args quiet_env skip_branch_cli = Inl (SystemExit 2)
   \<and> main quiet_env skip_branch_cli [] = (Some (SystemExit 2), [])
   \<and> list_all (\<lambda>branch. parse_args quiet_env
                  (skip_branch_cli\<lparr>cli_branches := None, cli_skip_branches := Some [branch]\<rparr>)
                = Inl (SystemExit 2)) all_branches"
proof -
  have p: "parse_args quiet_env skip_branch_cli = Inl (SystemExit 2)"
    by (simp add: parse_args_def skip_branch_cli_def accepted_def all_arches_def)
  have d: "set (with_default default_branches (cli_branches skip_branch_cli))
     - set (with_default [] (cli_skip_branches skip_branch_cli)) = {''sisyphus''}"
    by (auto simp add: skip_branch_cli_def with_default_def)
  have a: "accepted (Some all_branches) (cli_skip_branches skip_branch_cli)"
    by (simp add: skip_branch_cli_def accepted_def all_branches_def)
  have l: "list_all (\<lambda>branch. parse_args quiet_env
                  (skip_branch_cli\<lparr>cli_branches := None, cli_skip_branches := Some [branch]\<rparr>)
                = Inl (SystemExit 2)) all_branches"
    by (simp add: parse_args_def skip_branch_cli_def accepted_def all_arches_def
          all_branches_def)
  show ?thesis using p d a l main_rejected [OF p, of "[]"] by (simp only: simp_thms)
qed

subsection \<open>Evaluating example runs\<close>

lemma quiet_env_simps:
  "exit_code quiet_env = (\<lambda>tr p. 0)" "CWD quiet_env = ''/work''" "HOME quiet_env = ''/root''"
  "set_order quiet_env = table_order"
  by (simp_all add: quiet_env_def)

lemma broken_from_env_simps:
  "exit_code broken_from_env =
     (\<lambda>tr p. if take 2 (argv p) = [''buildah'', ''from''] then 125 else 0)"
  "CWD broken_from_env = ''/work''" "HOME broken_from_env = ''/root''"
  "set_order broken_from_env = table_order"
  by (simp_all add: broken_from_env_def)


lemmas stage_defs =
  build_all_def date_body_def cell_body_def build_tarball_def create_apt_files_def
  make_tool_def remove_manifest_def remove_image_def remove_container_def buildah_build_def
  buildah_def run_command_in_container_def install_packages_def test_def test_commands_def
  podman_push_def clean_def subprocess_run_def andthen_def if_then_def eval_then_def
  for_each_opt_def emit_def skip_def raise_def Let_def arch_lookup_def

lemma generate_source_list_example:
  "generate_source_list ''amd64'' ''p10'' ''2024-01-15'' =
     Inr (source_line ''p10'' ''2024/01/15'' ''x86_64'' @ [LF]
          @ source_line ''p10'' ''2024/01/15'' ''noarch'' @ [LF])"
  by (simp add: generate_source_list_def apt_date_example arch_lookup_def ARCH_MAP_amd64
        source_line_def lstrip_LF_rpm)

lemma apt_date_bad: "apt_date ''2024-13-45'' = Inl (ValueError ''2024-13-45'')"
  by (simp add: apt_date_def fromisoformat_bad)

lemma generate_source_list_bad:
  "generate_source_list ''amd64'' ''p10'' ''2024-13-45'' = Inl (ValueError ''2024-13-45'')"
  by (simp add: generate_source_list_def apt_date_bad)

lemma parse_example_cli:
  "parse_args E (example_cli ds sts) =
     (if accepted None ds \<and> accepted (Some all_stages) (Some sts)
      then Inr \<lparr>args_registry = ''registry.altlinux.org'',
          args_mkimage_profiles_dir = path_join (HOME E) ''build/mkimage-profiles'',
          args_organization = ''alt'', args_name = ''archive'',
          args_dates = ds,
          args_arches = {''amd64''},
          args_skip_arches = [],
          args_branches = {''p10''},
          args_skip_branches = [],
          args_stages = set sts,
          args_skip_stages = [],
          args_packages = None\<rparr>
      else Inl (SystemExit 2))"
  by (simp add: parse_args_def example_cli_def with_default_def)
     (simp add: accepted_def all_arches_def all_branches_def)

lemma table_order_amd64: "table_order {''amd64''} = [''amd64'']"
  by (simp add: table_order_def all_arches_def all_branches_def)

lemma table_order_p10: "table_order {''p10''} = [''p10'']"
  by (simp add: table_order_def all_arches_def all_branches_def)

subsection \<open>The order of stages in a run\<close>

lemma performs_cell_body:
  "performs (cell_body E dir (registry @ ''/'' @ organization) name stages packages branch date
              (manifest_coordinate registry organization name branch date) arch)
     (cell_schedule stages registry organization name branch date arch)"
proof -
  have i: "(registry @ ''/'' @ organization) @ ''/'' @ name @ '':'' @ branch @ ''-'' @ date
             @ ''-'' @ arch
           = image_coordinate registry organization name branch date arch"
    by (simp add: image_coordinate_def manifest_coordinate_def)
  show ?thesis
    unfolding cell_body_def cell_schedule_def Let_def i
    by (intro performs_andthen performs_if_then performs_build_tarball performs_buildah_build
          performs_test)
qed

lemma performs_date_body:
  "performs (date_body E arches dir (registry @ ''/'' @ organization) name stages packages
              branch date)
     (pair_schedule stages registry organization name arches branch date)"
proof -
  have m: "(registry @ ''/'' @ organization) @ ''/'' @ name @ '':'' @ branch @ ''-'' @ date
           = manifest_coordinate registry organization name branch date"
    by (simp add: manifest_coordinate_def)
  show ?thesis
    unfolding date_body_def pair_schedule_def Let_def m
    by (intro performs_andthen performs_if_then performs_remove_manifest performs_podman_push
          performs_for_each performs_cell_body)
qed

lemma performs_build_all:
  "performs (build_all E arches branches dates dir registry organization name stages packages)
     (matrix_schedule stages registry organization name arches branches (with_default [] dates))"
  unfolding build_all_def matrix_schedule_def Let_def
  by (intro performs_for_each performs_for_each_opt performs_date_body)

lemma performs_run:
  "performs (andthen (build_all E arches branches dates dir registry organization name stages
                       packages)
                    (if_then (''clean'' \<in> stages) (clean E)))
     (run_schedule stages registry organization name arches branches (with_default [] dates))"
  unfolding run_schedule_def
  by (intro performs_andthen performs_if_then performs_build_all performs_clean)

text \<open>
  Claim C3, as stated, fails: push does not run once per (branch, date). With the date
  \<^verbatim>\<open>2024-01-15\<close> given twice and only the push requested, the one manifest of
  (\<^verbatim>\<open>p10\<close>, \<^verbatim>\<open>2024-01-15\<close>) is pushed twice.
\<close>

theorem push_twice_for_one_pair:
  "main quiet_env (example_cli (Some [''2024-01-15'', ''2024-01-15'']) [''push'']) []
   = (None,
      [Entered (In_podman_push ''registry.altlinux.org/alt/archive:p10-2024-01-15''),
       Ran \<lparr>argv = [''podman'', ''manifest'', ''push'',
                    ''registry.altlinux.org/alt/archive:p10-2024-01-15'',
                    ''docker://registry.altlinux.org/alt/archive:p10-2024-01-15''],
            cwd = None, input = None, check = False, devnull = False\<rparr> 0,
       Entered (In_podman_push ''registry.altlinux.org/alt/archive:p10-2024-01-15''),
       Ran \<lparr>argv = [''podman'', ''manifest'', ''push'',
                    ''registry.altlinux.org/alt/archive:p10-2024-01-15'',
                    ''docker://registry.altlinux.org/alt/archive:p10-2024-01-15''],
            cwd = None, input = None, check = False, devnull = False\<rparr> 0])"
proof -
  have p: "parse_args quiet_env
             (example_cli (Some [''2024-01-15'', ''2024-01-15'']) [''push''])
           = Inr \<lparr>args_registry = ''registry.altlinux.org'',
          args_mkimage_profiles_dir = path_join (HOME quiet_env) ''build/mkimage-profiles'',
          args_organization = ''alt'', args_name = ''archive'',
          args_dates = Some [''2024-01-15'', ''2024-01-15''],
          args_arches = {''amd64''},
          args_skip_arches = [],
          args_branches = {''p10''},
          args_skip_branches = [],
          args_stages = set [''push''],
          args_skip_stages = [],
          args_packages = None\<rparr>"
    by (simp add: parse_example_cli accepted_def all_stages_def)
  show ?thesis
    unfolding main_parsed [OF p]
    by (simp add: stage_defs quiet_env_simps table_order_amd64 table_order_p10
          podman_push_proc_def)
qed

text \<open>
  Claim C3, amended. For every accepted command line and whatever the commands exit
  with, a run is a sequence of stage calls, each followed by its commands; every command
  of the run belongs to one of them. The stage calls are, in order, a prefix of the
  schedule of the specification, and the whole schedule when the run returns: for each
  branch and each entry of the list of dates (so once more for a date given once more),
  the manifest reset if the image stage is requested, then for each architecture the
  requested ones of tarball, image and test in this order, then one push, if requested,
  after the cells of all architectures; and one clean after the whole matrix, if
  requested. Every stage call but the last has run the commands of its stage, and the
  last has too when the run returns. The order in which the stages were given on the
  command line does not matter: any list with the same members gives the same run.
\<close>

theorem stage_order:
  assumes "parse_args E c = Inr a"
  shows "let sched = run_schedule (args_stages a) (args_registry a) (args_organization a)
                       (args_name a) (set_order E (args_arches a))
                       (set_order E (args_branches a)) (with_default [] (args_dates a));
             out = main E c [];
             calls = blocks (snd out)
         in map fst (commands_of (snd out)) = concat (map snd calls)
            \<and> prefix (map fst calls) sched
            \<and> list_all block_done (butlast calls)
            \<and> (fst out = None \<longrightarrow> map fst calls = sched \<and> list_all block_done calls)
            \<and> (set stages' = set (with_default all_stages (cli_stages c))
                 \<longrightarrow> main E (c\<lparr>cli_stages := Some stages'\<rparr>) = main E c)"
proof -
  define sched where "sched = run_schedule (args_stages a) (args_registry a)
     (args_organization a) (args_name a) (set_order E (args_arches a))
     (set_order E (args_branches a)) (with_default [] (args_dates a))"
  have "performs (main E c) sched"
    unfolding main_parsed [OF assms] sched_def by (rule performs_run)
  from performsD [OF this, of "[]"] obtain ext where
    h: "snd (main E c []) = [] @ ext
            \<and> block_commands ext = []
            \<and> prefix (map fst (blocks ext)) sched
            \<and> list_all block_done (butlast (blocks ext))
            \<and> (fst (main E c []) = None \<longrightarrow>
                 map fst (blocks ext) = sched \<and> list_all block_done (blocks ext))" ..
  have e: "snd (main E c []) = ext" using h [THEN conjunct1] by (simp only: append_Nil)
  note c1 = h [THEN conjunct2, THEN conjunct1]
    and c2 = h [THEN conjunct2, THEN conjunct2, THEN conjunct1]
    and c3 = h [THEN conjunct2, THEN conjunct2, THEN conjunct2, THEN conjunct1]
    and c4 = h [THEN conjunct2, THEN conjunct2, THEN conjunct2, THEN conjunct2]
  have s1: "map fst (commands_of ext) = concat (map snd (blocks ext))"
    using commands_in_blocks [of ext] by (simp only: c1 append_Nil)
  have s5: "set stages' = set (with_default all_stages (cli_stages c))
                 \<longrightarrow> main E (c\<lparr>cli_stages := Some stages'\<rparr>) = main E c"
  proof
    assume "set stages' = set (with_default all_stages (cli_stages c))"
    then have "parse_args E (c\<lparr>cli_stages := Some stages'\<rparr>) = parse_args E c"
      by (rule parse_args_stage_order)
    then show "main E (c\<lparr>cli_stages := Some stages'\<rparr>) = main E c"
      by (simp only: main_def)
  qed
  show ?thesis
    unfolding Let_def sched_def [symmetric] e
    by (intro conjI) (fact s1 c2 c3 c4 s5)+
qed

lemma example_run:
  "main quiet_env
       (example_cli (Some [''2024-01-15'']) [''push'', ''test'', ''build_tarball'']) []
   = (None,
      [Entered (In_build_tarball ''amd64'' ''p10'' ''2024-01-15''),
       Write_text ''/work/apt.conf'' (apt_conf_text quiet_env),
       Write_text ''/work/source.list''
         (source_line ''p10'' ''2024/01/15'' ''x86_64'' @ [LF]
          @ source_line ''p10'' ''2024/01/15'' ''noarch'' @ [LF]),
       Mkdir ''/work/amd64'',
       Ran \<lparr>argv = [''make'', ''APTCONF=/work/apt.conf'', ''ARCH=x86_64'', ''BRANCH=p10'',
                    ''IMAGE_OUTDIR=/work/amd64'', ''IMAGE_OUTFILE=alt.tar.xz'',
                    ''ve/docker.tar.xz''],
            cwd = Some ''/root/build/mkimage-profiles'', input = None, check = True,
            devnull = False\<rparr> 0,
       Entered (In_test ''amd64'' ''p10'' ''2024-01-15''
                  ''registry.altlinux.org/alt/archive:p10-2024-01-15-amd64''),
       Ran (smoke_checks ''registry.altlinux.org/alt/archive:p10-2024-01-15-amd64'' ''p10''
              ''x86_64'' ''2024/01/15'' ! 0) 0,
       Ran (smoke_checks ''registry.altlinux.org/alt/archive:p10-2024-01-15-amd64'' ''p10''
              ''x86_64'' ''2024/01/15'' ! 1) 0,
       Ran (smoke_checks ''registry.altlinux.org/alt/archive:p10-2024-01-15-amd64'' ''p10''
              ''x86_64'' ''2024/01/15'' ! 2) 0,
       Ran (smoke_checks ''registry.altlinux.org/alt/archive:p10-2024-01-15-amd64'' ''p10''
              ''x86_64'' ''2024/01/15'' ! 3) 0,
       Entered (In_podman_push ''registry.altlinux.org/alt/archive:p10-2024-01-15''),
       Ran \<lparr>argv = [''podman'', ''manifest'', ''push'',
                    ''registry.altlinux.org/alt/archive:p10-2024-01-15'',
                    ''docker://registry.altlinux.org/alt/archive:p10-2024-01-15''],
            cwd = None, input = None, check = False, devnull = False\<rparr> 0])"
proof -
  have p: "parse_args quiet_env
             (example_cli (Some [''2024-01-15'']) [''push'', ''test'', ''build_tarball''])
           = Inr \<lparr>args_registry = ''registry.altlinux.org'',
          args_mkimage_profiles_dir = path_join (HOME quiet_env) ''build/mkimage-profiles'',
          args_organization = ''alt'', args_name = ''archive'',
          args_dates = Some [''2024-01-15''],
          args_arches = {''amd64''},
          args_skip_arches = [],
          args_branches = {''p10''},
          args_skip_branches = [],
          args_stages = set [''push'', ''test'', ''build_tarball''],
          args_skip_stages = [],
          args_packages = None\<rparr>"
    by (simp add: parse_example_cli accepted_def all_stages_def)
  show ?thesis
    unfolding main_parsed [OF p]
    by (simp add: stage_defs quiet_env_simps table_order_amd64 table_order_p10
          generate_source_list_example ARCH_MAP_amd64 apt_date_example podman_push_proc_def
          podman_run_proc_def smoke_checks_def path_join_def APT_CONF_def SOURCE_LIST_def)
qed

theorem stage_order_witness:
  "map fst (commands_of (snd (main quiet_env
       (example_cli (Some [''2024-01-15'']) [''push'', ''test'', ''build_tarball'']) [])))
   = concat (map snd (blocks (snd (main quiet_env
       (example_cli (Some [''2024-01-15'']) [''push'', ''test'', ''build_tarball'']) []))))
   \<and> map fst (blocks (snd (main quiet_env
       (example_cli (Some [''2024-01-15'']) [''push'', ''test'', ''build_tarball'']) [])))
     = [In_build_tarball ''amd64'' ''p10'' ''2024-01-15'',
        In_test ''amd64'' ''p10'' ''2024-01-15''
          ''registry.altlinux.org/alt/archive:p10-2024-01-15-amd64'',
        In_podman_push ''registry.altlinux.org/alt/archive:p10-2024-01-15'']
   \<and> list_all block_done (blocks (snd (main quiet_env
       (example_cli (Some [''2024-01-15'']) [''push'', ''test'', ''build_tarball'']) [])))
   \<and> main quiet_env ((example_cli (Some [''2024-01-15'']) [''push'', ''test'', ''build_tarball''])
         \<lparr>cli_stages := Some [''build_tarball'', ''test'', ''push'']\<rparr>)
     = main quiet_env (example_cli (Some [''2024-01-15'']) [''push'', ''test'', ''build_tarball''])"
proof -
  define a0 where "a0 = \<lparr>args_registry = ''registry.altlinux.org'',
          args_mkimage_profiles_dir = path_join (HOME quiet_env) ''build/mkimage-profiles'',
          args_organization = ''alt'', args_name = ''archive'',
          args_dates = Some [''2024-01-15''],
          args_arches = {''amd64''},
          args_skip_arches = [],
          args_branches = {''p10''},
          args_skip_branches = [],
          args_stages = set [''push'', ''test'', ''build_tarball''],
          args_skip_stages = [],
          args_packages = None\<rparr>"
  have p: "parse_args quiet_env
             (example_cli (Some [''2024-01-15'']) [''push'', ''test'', ''build_tarball''])
           = Inr a0"
    unfolding a0_def by (simp add: parse_example_cli accepted_def all_stages_def)
  have s: "set [''build_tarball'', ''test'', ''push'']
           = set (with_default all_stages
                (cli_stages (example_cli (Some [''2024-01-15''])
                   [''push'', ''test'', ''build_tarball''])))"
    by (auto simp: example_cli_def with_default_def)
  have n: "fst (main quiet_env
       (example_cli (Some [''2024-01-15'']) [''push'', ''test'', ''build_tarball'']) []) = None"
    by (simp only: example_run fst_conv)
  have sch: "run_schedule (args_stages a0) (args_registry a0) (args_organization a0)
               (args_name a0) (set_order quiet_env (args_arches a0))
               (set_order quiet_env (args_branches a0)) (with_default [] (args_dates a0))
             = [In_build_tarball ''amd64'' ''p10'' ''2024-01-15'',
                In_test ''amd64'' ''p10'' ''2024-01-15''
                  ''registry.altlinux.org/alt/archive:p10-2024-01-15-amd64'',
                In_podman_push ''registry.altlinux.org/alt/archive:p10-2024-01-15'']"
    by (simp add: a0_def quiet_env_simps table_order_amd64 table_order_p10 run_schedule_def
          matrix_schedule_def pair_schedule_def cell_schedule_def with_default_def
          manifest_coordinate_def image_coordinate_def)
  note t = stage_order [OF p, where stages' = "[''build_tarball'', ''test'', ''push'']",
                        unfolded Let_def sch]
  note t1 = t [THEN conjunct1]
    and t4 = t [THEN conjunct2, THEN conjunct2, THEN conjunct2, THEN conjunct1, THEN mp, OF n]
    and t5 = t [THEN conjunct2, THEN conjunct2, THEN conjunct2, THEN conjunct2, THEN mp, OF s]
  show ?thesis
    by (intro conjI) (fact t1 t4 [THEN conjunct1] t4 [THEN conjunct2] t5)+
qed

subsection \<open>A run without matrix stages\<close>

lemma clean_run:
  "clean E tr = (None, tr @ [Entered In_clean,
                             Ran clean_proc (exit_code E (tr @ [Entered In_clean]) clean_proc)])"
  by (simp add: clean_def andthen_emit subprocess_run_unchecked clean_proc_def)

lemma build_all_no_stage:
  assumes "''build_tarball'' \<notin> stages" "''build_image'' \<notin> stages" "''test'' \<notin> stages"
    "''push'' \<notin> stages"
  shows "build_all E arches branches (Some ds) dir registry organization name stages packages
         = skip"
proof -
  have cb: "cell_body E dir repo name stages packages branch date manifest = (\<lambda>arch. skip)"
    for repo branch date manifest
    using assms by (intro ext) (simp add: cell_body_def if_then_def andthen_skip)
  have db: "date_body E arches dir repo name stages packages branch = (\<lambda>date. skip)"
    for repo branch
    using assms
    by (intro ext) (simp add: date_body_def Let_def if_then_def andthen_skip cb for_each_skip)
  show ?thesis
    by (simp add: build_all_def Let_def for_each_opt_def db for_each_skip)
qed

text \<open>
  Claim C10. When none of \<^verbatim>\<open>build_tarball\<close>, \<^verbatim>\<open>build_image\<close>, \<^verbatim>\<open>test\<close>, \<^verbatim>\<open>push\<close> is in
  the effective stage set and the dates are given, the run goes through the matrix
  without running a command or writing a file and returns; its only effect is the one
  prune command, when \<^verbatim>\<open>clean\<close> is in the stage set.
\<close>

theorem no_stage_no_effect:
  assumes "parse_args E c = Inr a" and "args_dates a = Some ds"
    and "''build_tarball'' \<notin> args_stages a" and "''build_image'' \<notin> args_stages a"
    and "''test'' \<notin> args_stages a" and "''push'' \<notin> args_stages a"
  shows "main E c tr =
           (None, tr @ (if ''clean'' \<in> args_stages a
                        then [Entered In_clean,
                              Ran clean_proc (exit_code E (tr @ [Entered In_clean]) clean_proc)]
                        else []))"
  unfolding main_parsed [OF assms(1)] assms(2) build_all_no_stage [OF assms(3-6)]
  by (simp add: andthen_skip if_then_def clean_run skip_def)

theorem no_stage_no_effect_witness:
  "main quiet_env (example_cli (Some [''2024-01-15'']) [''clean'']) []
   = (None, [Entered In_clean, Ran clean_proc 0])"
proof -
  have p: "parse_args quiet_env (example_cli (Some [''2024-01-15'']) [''clean''])
           = Inr \<lparr>args_registry = ''registry.altlinux.org'',
          args_mkimage_profiles_dir = path_join (HOME quiet_env) ''build/mkimage-profiles'',
          args_organization = ''alt'', args_name = ''archive'',
          args_dates = Some [''2024-01-15''],
          args_arches = {''amd64''},
          args_skip_arches = [],
          args_branches = {''p10''},
          args_skip_branches = [],
          args_stages = set [''clean''],
          args_skip_stages = [],
          args_packages = None\<rparr>"
    by (simp add: parse_example_cli accepted_def all_stages_def)
  show ?thesis
    using no_stage_no_effect [OF p, of "[''2024-01-15'']" "[]"]
    by (simp add: quiet_env_simps)
qed
subsection \<open>An unchecked failure\<close>

text \<open>
  Claim C1 does not hold of the script: the commands of the image stage and the push are
  run without \<^verbatim>\<open>check=True\<close>. In the run below \<^verbatim>\<open>buildah from\<close> exits with 125; the
  run goes on through the image stage, pushes the manifest and returns normally.
\<close>

theorem buildah_failure_ignored:
  "fst (main broken_from_env
          (example_cli (Some [''2024-01-15'']) [''build_image'', ''push'']) []) = None
   \<and> commands_of (snd (main broken_from_env
          (example_cli (Some [''2024-01-15'']) [''build_image'', ''push'']) []))
     = [([''buildah'', ''manifest'', ''rm'', ''registry.altlinux.org/alt/archive:p10-2024-01-15''], 0),
        ([''buildah'', ''image'', ''rm'',
          ''registry.altlinux.org/alt/archive:p10-2024-01-15-amd64''], 0),
        ([''buildah'', ''rm'', ''archive-docker-amd64''], 0),
        ([''buildah'', ''from'', ''--arch'', ''amd64'', ''--name'', ''archive-docker-amd64'',
          ''scratch''], 125),
        ([''buildah'', ''add'', ''archive-docker-amd64'', ''alt.tar.xz'', ''/''], 0),
        ([''buildah'', ''run'', ''archive-docker-amd64'', ''sh'', ''-c'',
          ''true > /etc/security/limits.d/50-defaults.conf''], 0),
        ([''buildah'', ''run'', ''archive-docker-amd64'', ''sh'', ''-c'',
          ''cat > /etc/apt/sources.list.d/alt.list''], 0),
        ([''buildah'', ''config'', ''--cmd'', ''['' @ [CHR 0x22] @ ''/bin/bash'' @ [CHR 0x22] @ '']'',
          ''archive-docker-amd64''], 0),
        ([''buildah'', ''commit'', ''--rm'', ''--manifest'',
          ''registry.altlinux.org/alt/archive:p10-2024-01-15'', ''archive-docker-amd64'',
          ''registry.altlinux.org/alt/archive:p10-2024-01-15-amd64''], 0),
        ([''podman'', ''manifest'', ''push'', ''registry.altlinux.org/alt/archive:p10-2024-01-15'',
          ''docker://registry.altlinux.org/alt/archive:p10-2024-01-15''], 0)]"
proof -
  have p: "parse_args broken_from_env
             (example_cli (Some [''2024-01-15'']) [''build_image'', ''push''])
           = Inr \<lparr>args_registry = ''registry.altlinux.org'',
          args_mkimage_profiles_dir = path_join (HOME broken_from_env) ''build/mkimage-profiles'',
          args_organization = ''alt'', args_name = ''archive'',
          args_dates = Some [''2024-01-15''],
          args_arches = {''amd64''},
          args_skip_arches = [],
          args_branches = {''p10''},
          args_skip_branches = [],
          args_stages = set [''build_image'', ''push''],
          args_skip_stages = [],
          args_packages = None\<rparr>"
    by (simp add: parse_example_cli accepted_def all_stages_def)
  show ?thesis
    unfolding main_parsed [OF p]
    by (simp add: stage_defs broken_from_env_simps table_order_amd64 table_order_p10
          generate_source_list_example ARCH_MAP_amd64 apt_date_example
          commands_of_simps remove_manifest_proc_def podman_push_proc_def
          INTERNAL_CONTAINER_def)
qed

subsection \<open>Configuration errors\<close>

lemma for_each_Cons_Some:
  "body x tr = (Some e, tr') \<Longrightarrow> for_each (x # xs) body tr = (Some e, tr')"
  by (simp add: andthen_Some)

lemma choice_is_mapped: "x \<in> set all_arches \<Longrightarrow> \<exists>y. ARCH_MAP x = Some y"
  by (auto simp add: all_arches_def ARCH_MAP_def)

lemma unmapped_rejected:
  assumes "cli_arches c = Some xs \<or> cli_skip_arches c = Some xs"
    and "x \<in> set xs" and "ARCH_MAP x = None"
  shows "parse_args E c = Inl (SystemExit 2)"
proof -
  have "x \<notin> set all_arches" using choice_is_mapped [of x] assms(3) by auto
  then have "\<not> accepted (Some all_arches) (Some xs)"
    using assms(2) by (auto simp add: accepted_set)
  then have "\<not> (accepted (Some all_arches) (cli_arches c)
                \<and> accepted (Some all_arches) (cli_skip_arches c))"
    using assms(1) by auto
  then show ?thesis unfolding parse_args_def by auto
qed

lemma parse_args_arches_mapped:
  assumes "parse_args E c = Inr a" and "x \<in> args_arches a"
  shows "\<exists>y. ARCH_MAP x = Some y"
proof -
  have acc: "accepted (Some all_arches) (cli_arches c)"
    using assms(1) unfolding parse_args_def by (auto split: if_splits)
  have "x \<in> set (with_default default_arches (cli_arches c))"
    using assms parse_args_differences [OF assms(1)] by simp
  then have "x \<in> set all_arches"
    using acc
    by (cases "cli_arches c")
       (auto simp add: with_default_def default_arches_def all_arches_def accepted_set)
  then show ?thesis by (rule choice_is_mapped)
qed

lemma parse_args_branches_nonempty:
  assumes "parse_args E c = Inr a"
  shows "args_branches a \<noteq> {}"
proof -
  have acc: "accepted (Some all_branches) (cli_branches c)"
    and skp: "accepted (Some all_arches) (cli_skip_branches c)"
    using assms unfolding parse_args_def by (auto split: if_splits)
  obtain b where b: "b \<in> set (with_default default_branches (cli_branches c))"
    and bb: "b \<in> set all_branches"
  proof (cases "cli_branches c")
    case None
    show ?thesis
      by (rule that [of "''p10''"])
         (simp_all add: None with_default_def default_branches_def all_branches_def)
  next
    case (Some xs)
    then have "xs \<noteq> []" and s: "set xs \<subseteq> set all_branches"
      using acc by (simp_all add: accepted_set)
    then obtain b where "b \<in> set xs" by (cases xs) auto
    then show ?thesis using s Some by (intro that [of b]) (auto simp add: with_default_def)
  qed
  have "b \<notin> set (with_default [] (cli_skip_branches c))"
  proof (cases "cli_skip_branches c")
    case None
    then show ?thesis by (simp add: with_default_def)
  next
    case (Some ys)
    then have "set ys \<subseteq> set all_arches" using skp by (simp add: accepted_set)
    moreover have "b \<notin> set all_arches"
      using bb by (auto simp add: all_arches_def all_branches_def)
    ultimately show ?thesis using Some by (auto simp add: with_default_def)
  qed
  then have "b \<in> args_branches a"
    using b parse_args_differences [OF assms] by simp
  then show ?thesis by auto
qed

lemma build_tarball_error:
  "generate_source_list arch branch date = Inl e \<Longrightarrow>
   build_tarball E arch branch date dir tr =
     (Some e, tr @ [Entered (In_build_tarball arch branch date),
                    Write_text (APT_CONF E) (apt_conf_text E)])"
  by (simp add: build_tarball_def create_apt_files_def eval_then_def raise_def andthen_def
        emit_def)

lemma test_error:
  "test_commands arch branch date = Inl e \<Longrightarrow>
   test E arch branch date img tr = (Some e, tr @ [Entered (In_test arch branch date img)])"
  by (simp add: test_def eval_then_def raise_def andthen_def emit_def)

lemma first_cell_error:
  assumes "cell_body E dir (registry @ ''/'' @ organization) name stages packages branch date
             ((registry @ ''/'' @ organization) @ ''/'' @ name @ '':'' @ branch @ ''-'' @ date)
             arch tr = (Some e, tr')"
    and "''build_image'' \<notin> stages"
  shows "build_all E (arch # arches) (branch # branches) (Some (date # dates)) dir registry
           organization name stages packages tr = (Some e, tr')"
proof -
  define repo where "repo = registry @ ''/'' @ organization"
  define manifest where "manifest = repo @ ''/'' @ name @ '':'' @ branch @ ''-'' @ date"
  define cell where "cell = cell_body E dir repo name stages packages branch date manifest"
  have c: "cell arch tr = (Some e, tr')"
    using assms(1) unfolding cell_def manifest_def repo_def .
  have l: "for_each (arch # arches) cell tr = (Some e, tr')"
    using c by (rule for_each_Cons_Some)
  have d: "date_body E (arch # arches) dir repo name stages packages branch date tr
           = (Some e, tr')"
    unfolding date_body_def Let_def manifest_def [symmetric] cell_def [symmetric]
    using assms(2) l by (simp add: if_then_def andthen_def skip_def)
  have "for_each_opt (Some (date # dates))
               (date_body E (arch # arches) dir repo name stages packages branch) tr
        = (Some e, tr')"
    unfolding for_each_opt_def using d by (simp add: andthen_def)
  then show ?thesis
    unfolding build_all_def Let_def repo_def [symmetric] by (simp add: andthen_def)
qed

lemma first_cell_malformed_date:
  assumes "\<forall>d. fromisoformat date \<noteq> Inr d" and "ARCH_MAP arch = Some y"
    and "''build_image'' \<notin> stages"
    and "''build_tarball'' \<in> stages \<or> ''test'' \<in> stages"
  shows "\<exists>tr'. cell_body E dir repo name stages packages branch date manifest arch tr
                  = (Some (ValueError date), tr')
               \<and> commands_of tr' = commands_of tr"
proof -
  obtain e where "fromisoformat date = Inl e" using assms(1) by (cases "fromisoformat date") auto
  then have f: "fromisoformat date = Inl (ValueError date)"
    using fromisoformat_InlD by blast
  have g: "generate_source_list arch branch date = Inl (ValueError date)"
    by (simp add: generate_source_list_def apt_date_def f)
  have t: "test_commands arch branch date = Inl (ValueError date)"
    by (simp add: test_commands_def arch_lookup_def assms(2) apt_date_def f)
  show ?thesis
  proof (cases "''build_tarball'' \<in> stages")
    case True
    have "cell_body E dir repo name stages packages branch date manifest arch tr
          = (Some (ValueError date), tr @ [Entered (In_build_tarball arch branch date),
                           Write_text (APT_CONF E) (apt_conf_text E)])"
      using True
      by (simp add: cell_body_def Let_def if_then_def andthen_def build_tarball_error [OF g])
    then show ?thesis by (simp add: commands_of_append commands_of_simps)
  next
    case False
    then have "''test'' \<in> stages" using assms(4) by simp
    then have "cell_body E dir repo name stages packages branch date manifest arch tr
          = (Some (ValueError date), tr @ [Entered (In_test arch branch date
               (repo @ ''/'' @ name @ '':'' @ branch @ ''-'' @ date @ ''-'' @ arch))])"
      using False assms(3)
      by (simp add: cell_body_def Let_def if_then_def andthen_skip test_error [OF t])
    then show ?thesis by (simp add: commands_of_append commands_of_simps)
  qed
qed

lemma build_all_no_dates:
  "build_all E arches (branch # branches) None dir registry organization name stages packages tr
   = (Some TypeError, tr)"
  by (simp add: build_all_def for_each_opt_def raise_def andthen_def)

text \<open>
  Claim C7, as stated, fails: with the image stage selected and a date that is not a
  date, six commands run (the manifest removal and the first five of the image stage)
  before the run ends with \<^verbatim>\<open>ValueError\<close>.
\<close>

theorem malformed_date_after_commands:
  "fst (main quiet_env (example_cli (Some [''2024-13-45'']) [''build_image'']) [])
     = Some (ValueError ''2024-13-45'')
   \<and> commands_of (snd (main quiet_env (example_cli (Some [''2024-13-45'']) [''build_image'']) []))
     = [([''buildah'', ''manifest'', ''rm'', ''registry.altlinux.org/alt/archive:p10-2024-13-45''], 0),
        ([''buildah'', ''image'', ''rm'',
          ''registry.altlinux.org/alt/archive:p10-2024-13-45-amd64''], 0),
        ([''buildah'', ''rm'', ''archive-docker-amd64''], 0),
        ([''buildah'', ''from'', ''--arch'', ''amd64'', ''--name'', ''archive-docker-amd64'',
          ''scratch''], 0),
        ([''buildah'', ''add'', ''archive-docker-amd64'', ''alt.tar.xz'', ''/''], 0),
        ([''buildah'', ''run'', ''archive-docker-amd64'', ''sh'', ''-c'',
          ''true > /etc/security/limits.d/50-defaults.conf''], 0)]"
proof -
  have p: "parse_args quiet_env (example_cli (Some [''2024-13-45'']) [''build_image''])
           = Inr \<lparr>args_registry = ''registry.altlinux.org'',
          args_mkimage_profiles_dir = path_join (HOME quiet_env) ''build/mkimage-profiles'',
          args_organization = ''alt'', args_name = ''archive'',
          args_dates = Some [''2024-13-45''],
          args_arches = {''amd64''},
          args_skip_arches = [],
          args_branches = {''p10''},
          args_skip_branches = [],
          args_stages = set [''build_image''],
          args_skip_stages = [],
          args_packages = None\<rparr>"
    by (simp add: parse_example_cli accepted_def all_stages_def)
  show ?thesis
    unfolding main_parsed [OF p]
    by (simp add: stage_defs quiet_env_simps table_order_amd64 table_order_p10
          generate_source_list_bad commands_of_simps remove_manifest_proc_def
          INTERNAL_CONTAINER_def)
qed

text \<open>
  Claim C7, amended. An architecture outside the table, given as an architecture to
  build or to skip, is rejected by the command line: the run ends with status 2 before
  anything is done, for every stage selection. A missing dates argument ends the run
  with \<^verbatim>\<open>TypeError\<close> before anything is done, for every stage selection. A first date
  that \<open>fromisoformat\<close> does not accept ends the run with \<^verbatim>\<open>ValueError\<close> before any
  command when there is an architecture to build and the stage selection contains
  \<^verbatim>\<open>build_tarball\<close> or \<^verbatim>\<open>test\<close> and not \<^verbatim>\<open>build_image\<close>. The loops are taken to meet
  every member of the sets of architectures and branches.
\<close>

theorem config_errors_before_commands:
  "((cli_arches c = Some xs \<or> cli_skip_arches c = Some xs) \<and> x \<in> set xs \<and> ARCH_MAP x = None
      \<longrightarrow> main E c tr = (Some (SystemExit 2), tr))
   \<and> (parse_args E c = Inr a \<and> args_dates a = None
       \<and> set (set_order E (args_branches a)) = args_branches a
      \<longrightarrow> main E c tr = (Some TypeError, tr))
   \<and> (parse_args E c = Inr a \<and> args_dates a = Some (date # dates)
       \<and> (\<forall>d. fromisoformat date \<noteq> Inr d)
       \<and> ''build_image'' \<notin> args_stages a
       \<and> (''build_tarball'' \<in> args_stages a \<or> ''test'' \<in> args_stages a)
       \<and> args_arches a \<noteq> {}
       \<and> set (set_order E (args_arches a)) = args_arches a
       \<and> set (set_order E (args_branches a)) = args_branches a
      \<longrightarrow> fst (main E c tr) = Some (ValueError date)
          \<and> commands_of (snd (main E c tr)) = commands_of tr)"
proof (intro conjI impI)
  assume h: "(cli_arches c = Some xs \<or> cli_skip_arches c = Some xs) \<and> x \<in> set xs
             \<and> ARCH_MAP x = None"
  then have "parse_args E c = Inl (SystemExit 2)"
    using unmapped_rejected [of c xs x E] by blast
  then show "main E c tr = (Some (SystemExit 2), tr)" by (rule main_rejected)
next
  assume h: "parse_args E c = Inr a \<and> args_dates a = None
       \<and> set (set_order E (args_branches a)) = args_branches a"
  then have p: "parse_args E c = Inr a" and d: "args_dates a = None"
    and s: "set (set_order E (args_branches a)) = args_branches a" by simp_all
  have "set_order E (args_branches a) \<noteq> []"
    using parse_args_branches_nonempty [OF p] s by auto
  then obtain b bs where b: "set_order E (args_branches a) = b # bs"
    by (cases "set_order E (args_branches a)") auto
  show "main E c tr = (Some TypeError, tr)"
    unfolding main_parsed [OF p] d b by (simp add: andthen_Some [OF build_all_no_dates])
next
  assume h: "parse_args E c = Inr a \<and> args_dates a = Some (date # dates)
       \<and> (\<forall>d. fromisoformat date \<noteq> Inr d)
       \<and> ''build_image'' \<notin> args_stages a
       \<and> (''build_tarball'' \<in> args_stages a \<or> ''test'' \<in> args_stages a)
       \<and> args_arches a \<noteq> {}
       \<and> set (set_order E (args_arches a)) = args_arches a
       \<and> set (set_order E (args_branches a)) = args_branches a"
  then have p: "parse_args E c = Inr a" and d: "args_dates a = Some (date # dates)"
    and f: "\<forall>d. fromisoformat date \<noteq> Inr d"
    and h2: "''build_image'' \<notin> args_stages a"
    and h3: "''build_tarball'' \<in> args_stages a \<or> ''test'' \<in> args_stages a"
    and ne: "args_arches a \<noteq> {}"
    and sa: "set (set_order E (args_arches a)) = args_arches a"
    and sb: "set (set_order E (args_branches a)) = args_branches a" by simp_all
  have "set_order E (args_branches a) \<noteq> []"
    using parse_args_branches_nonempty [OF p] sb by auto
  then obtain b bs where b: "set_order E (args_branches a) = b # bs"
    by (cases "set_order E (args_branches a)") auto
  have "set_order E (args_arches a) \<noteq> []" using ne sa by auto
  then obtain ar ars where ar: "set_order E (args_arches a) = ar # ars"
    by (cases "set_order E (args_arches a)") auto
  have "ar \<in> args_arches a" using sa ar by auto
  then obtain y where y: "ARCH_MAP ar = Some y" using parse_args_arches_mapped [OF p] by blast
  from first_cell_malformed_date [OF f y h2 h3] obtain tr' where
    c: "cell_body E (args_mkimage_profiles_dir a) (args_registry a @ ''/'' @ args_organization a)
          (args_name a) (args_stages a) (args_packages a) b date
          ((args_registry a @ ''/'' @ args_organization a) @ ''/'' @ args_name a @ '':'' @ b
             @ ''-'' @ date) ar tr = (Some (ValueError date), tr')"
    and t: "commands_of tr' = commands_of tr"
    by blast
  have "build_all E (ar # ars) (b # bs) (Some (date # dates)) (args_mkimage_profiles_dir a)
          (args_registry a) (args_organization a) (args_name a) (args_stages a)
          (args_packages a) tr = (Some (ValueError date), tr')"
    using c h2 by (rule first_cell_error)
  then have "main E c tr = (Some (ValueError date), tr')"
    unfolding main_parsed [OF p] d b ar by (rule andthen_Some)
  then show "fst (main E c tr) = Some (ValueError date)"
    and "commands_of (snd (main E c tr)) = commands_of tr"
    using t by simp_all
qed

theorem config_errors_before_commands_witness:
  "main quiet_env (arches_cli [''amd64'', ''riscv64'']) [] = (Some (SystemExit 2), [])
   \<and> main quiet_env (example_cli None [''build_image'', ''push'']) [] = (Some TypeError, [])
   \<and> fst (main quiet_env (example_cli (Some [''2024-13-45'']) [''build_tarball'', ''test'']) [])
       = Some (ValueError ''2024-13-45'')
   \<and> commands_of (snd (main quiet_env
          (example_cli (Some [''2024-13-45'']) [''build_tarball'', ''test'']) [])) = []"
proof -
  define a0 where "a0 = \<lparr>args_registry = ''registry.altlinux.org'',
          args_mkimage_profiles_dir = path_join (HOME quiet_env) ''build/mkimage-profiles'',
          args_organization = ''alt'', args_name = ''archive'',
          args_dates = None,
          args_arches = {''amd64''},
          args_skip_arches = [],
          args_branches = {''p10''},
          args_skip_branches = [],
          args_stages = set [''build_image'', ''push''],
          args_skip_stages = [],
          args_packages = None\<rparr>"
  define a1 where "a1 = \<lparr>args_registry = ''registry.altlinux.org'',
          args_mkimage_profiles_dir = path_join (HOME quiet_env) ''build/mkimage-profiles'',
          args_organization = ''alt'', args_name = ''archive'',
          args_dates = Some [''2024-13-45''],
          args_arches = {''amd64''},
          args_skip_arches = [],
          args_branches = {''p10''},
          args_skip_branches = [],
          args_stages = set [''build_tarball'', ''test''],
          args_skip_stages = [],
          args_packages = None\<rparr>"
  have p0: "parse_args quiet_env (example_cli None [''build_image'', ''push'']) = Inr a0"
    unfolding a0_def by (simp add: parse_example_cli accepted_def all_stages_def)
  have p1: "parse_args quiet_env (example_cli (Some [''2024-13-45'']) [''build_tarball'', ''test''])
            = Inr a1"
    unfolding a1_def by (simp add: parse_example_cli accepted_def all_stages_def)
  have r: "ARCH_MAP ''riscv64'' = None" by (simp add: ARCH_MAP_def)
  have c: "cli_arches (arches_cli [''amd64'', ''riscv64'']) = Some [''amd64'', ''riscv64'']"
    by (simp add: arches_cli_def)
  have w1: "main quiet_env (arches_cli [''amd64'', ''riscv64'']) [] = (Some (SystemExit 2), [])"
    using config_errors_before_commands [where E = quiet_env
        and c = "arches_cli [''amd64'', ''riscv64'']" and xs = "[''amd64'', ''riscv64'']"
        and x = "''riscv64''" and tr = "[]", THEN conjunct1] r c
    by simp
  have w2: "main quiet_env (example_cli None [''build_image'', ''push'']) [] = (Some TypeError, [])"
    using config_errors_before_commands [where E = quiet_env
        and c = "example_cli None [''build_image'', ''push'']" and a = a0 and tr = "[]",
        THEN conjunct2, THEN conjunct1] p0
    by (simp add: a0_def quiet_env_simps table_order_p10)
  have w3: "fst (main quiet_env (example_cli (Some [''2024-13-45'']) [''build_tarball'', ''test'']) [])
       = Some (ValueError ''2024-13-45'')
   \<and> commands_of (snd (main quiet_env
          (example_cli (Some [''2024-13-45'']) [''build_tarball'', ''test'']) [])) = []"
    using config_errors_before_commands [where E = quiet_env
        and c = "example_cli (Some [''2024-13-45'']) [''build_tarball'', ''test'']" and a = a1
        and tr = "[]" and date = "''2024-13-45''" and dates = "[]",
        THEN conjunct2, THEN conjunct2] p1
    by (simp add: a1_def quiet_env_simps table_order_p10 table_order_amd64 fromisoformat_bad
          commands_of_simps)
  show ?thesis using w1 w2 w3 by (simp only: simp_thms)
qed

subsection \<open>Checked commands stop the run\<close>




















subsection \<open>The test stage\<close>

lemma strftime_year_999: "strftime_Ymd \<lparr>year = 999, month = 1, day = 1\<rparr> = ''999/01/01''"
  by (simp add: strftime_Ymd_def show_nat_999 zero_pad2 digit_char_values)





end
